theory Spec2Isabelle
  imports Main "HOL-Library.Word" "HOL-Library.Char_ord" "HOL-Library.List_Lexorder"
    "HOL-Library.Sublist"
begin

unbundle bit_operations_syntax

section \<open>JavaScript values\<close>

text \<open>
  A JavaScript string is a sequence of UTF-16 code units. The model uses \<^typ>\<open>string\<close>,
  whose characters are the code units 0 to 255 (ASCII and Latin-1); \<open>length\<close> is the
  JavaScript \<open>.length\<close> on that range. The fields of the JSON input have the types of the
  documented input format (strings, integers, booleans, a list of tag strings); an absent
  (\<open>undefined\<close>) field is \<open>None\<close>.
\<close>

text \<open>\<open>String.prototype.toLowerCase\<close> on the code units 0 to 255: the ASCII capitals and the
  Latin-1 capitals (0xC0 to 0xDE, without the multiplication sign 0xD7) move up by 32.\<close>

definition lowerChar :: "char \<Rightarrow> char" where
  "lowerChar c =
     (case map_of (zip ''ABCDEFGHIJKLMNOPQRSTUVWXYZ'' ''abcdefghijklmnopqrstuvwxyz'') c of
        Some l \<Rightarrow> l
      | None \<Rightarrow>
          (let n = (of_char c :: nat)
           in if 192 \<le> n \<and> n \<le> 222 \<and> n \<noteq> 215 then char_of (n + 32) else c))"

definition toLowerCase :: "string \<Rightarrow> string" where
  "toLowerCase s = map lowerChar s"

text \<open>
  The lookup tables of the source are object literals, so \<open>table[key]\<close> also finds the
  members every object inherits from \<open>Object.prototype\<close>. The values such a lookup can
  return are a string of the table, or an inherited member: \<open>JProto k\<close> is the member named
  \<open>k\<close> (a built-in function; for \<open>__proto__\<close> the prototype object itself). All of them are
  truthy.
\<close>

datatype jsval = JStr string | JProto string

definition objectPrototypeKeys :: "string list" where
  "objectPrototypeKeys =
     [''constructor'', ''__defineGetter__'', ''__defineSetter__'', ''hasOwnProperty'',
      ''__lookupGetter__'', ''__lookupSetter__'', ''isPrototypeOf'', ''propertyIsEnumerable'',
      ''toString'', ''valueOf'', ''__proto__'', ''toLocaleString'']"

definition objLookup :: "(string \<times> string) list \<Rightarrow> string \<Rightarrow> jsval option" where
  "objLookup table k =
     (case map_of table k of
        Some v \<Rightarrow> Some (JStr v)
      | None \<Rightarrow> if k \<in> set objectPrototypeKeys then Some (JProto k) else None)"

text \<open>\<open>ToString\<close>, as a template literal, string concatenation, a property key and the
  default sort order apply it. For the inherited members this is the rendering of Node.js
  (V8).\<close>

fun toStr :: "jsval \<Rightarrow> string" where
  "toStr (JStr s) = s"
| "toStr (JProto k) =
     (if k = ''__proto__'' then ''[object Object]''
      else ''function '' @ (if k = ''constructor'' then ''Object'' else k) @
           ''() { [native code] }'')"

text \<open>Truthiness of a field: \<open>undefined\<close>, the empty string and the number 0 are falsy;
  arrays, objects and functions are truthy.\<close>

definition truthyS :: "string option \<Rightarrow> bool" where
  "truthyS x = (case x of None \<Rightarrow> False | Some s \<Rightarrow> s \<noteq> [])"

definition truthyV :: "jsval option \<Rightarrow> bool" where
  "truthyV x = (case x of None \<Rightarrow> False | Some (JStr s) \<Rightarrow> s \<noteq> [] | Some (JProto k) \<Rightarrow> True)"

definition truthyN :: "int option \<Rightarrow> bool" where
  "truthyN x = (case x of None \<Rightarrow> False | Some n \<Rightarrow> n \<noteq> 0)"

definition truthyO :: "'a option \<Rightarrow> bool" where
  "truthyO x = (x \<noteq> None)"

text \<open>A value inside a template literal.\<close>

definition showS :: "string option \<Rightarrow> string" where
  "showS x = (case x of None \<Rightarrow> ''undefined'' | Some s \<Rightarrow> s)"

definition showV :: "jsval option \<Rightarrow> string" where
  "showV x = (case x of None \<Rightarrow> ''undefined'' | Some v \<Rightarrow> toStr v)"

text \<open>Decimal rendering of an integer (JSON integers in the range where a JavaScript number
  is exact and printed without exponent).\<close>

fun showNat :: "nat \<Rightarrow> string" where
  "showNat n =
     (if n < 10 then [''0123456789'' ! n]
      else showNat (n div 10) @ [''0123456789'' ! (n mod 10)])"

declare showNat.simps [simp del]

definition showInt :: "int \<Rightarrow> string" where
  "showInt i = (if i < 0 then CHR ''-'' # showNat (nat (- i)) else showNat (nat i))"

definition showN :: "int option \<Rightarrow> string" where
  "showN x = (case x of None \<Rightarrow> ''undefined'' | Some n \<Rightarrow> showInt n)"

text \<open>What a function of the source throws; every one of these is a \<open>TypeError\<close> (a method
  call on \<open>undefined\<close>).\<close>

datatype jserror = TypeError

text \<open>
  The parts of the platform the model does not interpret: the clock (\<open>new Date()\<close> rendered
  by \<open>toISOString\<close>), the date parser (\<open>new Date(s).toISOString()\<close>, \<open>None\<close> for an invalid
  date), and the two comparisons the source makes in floating point. \<open>now\<close> is the reading
  of the clock where a call first asks for it. \<open>convertJsonToMdx\<close> asks twice, once for the
  header and once more for the object it returns after the file is written: \<open>later\<close> is
  that second reading. The merger's readings within one call are taken as one instant.
\<close>

record platform =
  now :: string
  later :: string
  parseDate :: "string \<Rightarrow> string option"
  ratioAbove50 :: "int \<Rightarrow> int \<Rightarrow> bool"
  above70Percent :: "int \<Rightarrow> nat \<Rightarrow> bool"

section \<open>Taxonomy resolver\<close>

text \<open>The loaded \<open>categories.json\<close>: \<open>this.categories.categories\<close> is a list of categories,
  each with an \<open>id\<close> and its subcategories (reduced to their \<open>id\<close>s).\<close>

record taxCategory =
  cid :: string
  subcategories :: "string list"

definition categoryExists :: "taxCategory list \<Rightarrow> jsval \<Rightarrow> bool" where
  "categoryExists cats category = list_ex (\<lambda>cat. JStr (cid cat) = category) cats"

definition categoryMappings :: "(string \<times> string) list" where
  "categoryMappings =
     [(''programming'', ''programming-languages''),
      (''devops'', ''system-devops''),
      (''backend'', ''web-backend''),
      (''frontend'', ''web-frontend''),
      (''database'', ''databases''),
      (''db'', ''databases'')]"

text \<open>\<open>tagLower.some(tag => [...].includes(tag))\<close>\<close>

definition someIncluded :: "string list \<Rightarrow> string list \<Rightarrow> bool" where
  "someIncluded tagLower signals = list_ex (\<lambda>tag. tag \<in> set signals) tagLower"

definition databaseTags :: "string list" where
  "databaseTags = [''sql'', ''mysql'', ''postgresql'', ''mongodb'', ''database'', ''sql-server'',
                   ''oracle'', ''sqlite'']"

definition devopsTags :: "string list" where
  "devopsTags = [''docker'', ''kubernetes'', ''aws'', ''azure'', ''gcp'', ''linux'', ''bash'',
                 ''shell'', ''devops'', ''cloud'']"

definition frontendTags :: "string list" where
  "frontendTags = [''javascript'', ''react'', ''vue'', ''angular'', ''css'', ''html'', ''frontend'',
                   ''ui'', ''web'']"

definition mobileTags :: "string list" where
  "mobileTags = [''android'', ''ios'', ''mobile'', ''swift'', ''kotlin'']"

text \<open>The four \<open>if\<close>s inside the "smart mapping" block, in the order of the source.\<close>

definition tagSignalCategory :: "string list \<Rightarrow> string option" where
  "tagSignalCategory tagLower =
     (if someIncluded tagLower databaseTags then Some ''databases''
      else if someIncluded tagLower devopsTags then Some ''system-devops''
      else if someIncluded tagLower frontendTags then Some ''web-frontend''
      else if someIncluded tagLower mobileTags then Some ''mobile''
      else None)"

text \<open>The default parameter \<open>tags = []\<close>.\<close>

definition tagsOrDefault :: "string list option \<Rightarrow> string list" where
  "tagsOrDefault tags = (case tags of None \<Rightarrow> [] | Some ts \<Rightarrow> ts)"

definition mapCategory ::
  "taxCategory list \<Rightarrow> jsval \<Rightarrow> string option \<Rightarrow> string list option \<Rightarrow> jsval" where
  "mapCategory cats category subcategory tags =
     (case (if category = JStr ''programming'' \<or> \<not> categoryExists cats category
            then tagSignalCategory (map toLowerCase (tagsOrDefault tags)) else None) of
        Some c \<Rightarrow> JStr c
      | None \<Rightarrow>
          (case objLookup categoryMappings (toStr category) of
             Some v \<Rightarrow> v
           | None \<Rightarrow> category))"

definition mapSubcategory ::
  "jsval \<Rightarrow> string option \<Rightarrow> string list option \<Rightarrow> string option" where
  "mapSubcategory category subcategory tags =
     (if subcategory = Some ''general'' then
        (let tagLower = map toLowerCase (tagsOrDefault tags) in
         if category = JStr ''databases'' then
           (if ''sql-server'' \<in> set tagLower then Some ''sql''
            else if ''mysql'' \<in> set tagLower then Some ''mysql''
            else if ''postgresql'' \<in> set tagLower then Some ''postgresql''
            else if ''mongodb'' \<in> set tagLower then Some ''mongodb''
            else Some ''sql'')
         else if category = JStr ''programming-languages'' then
           (if someIncluded tagLower [''java''] then Some ''java''
            else if someIncluded tagLower [''python''] then Some ''python''
            else if someIncluded tagLower [''javascript'', ''js'', ''npm'', ''node'']
              then Some ''javascript''
            else if someIncluded tagLower [''c#'', ''csharp''] then Some ''csharp''
            else if someIncluded tagLower [''cpp'', ''c++''] then Some ''cpp''
            else if someIncluded tagLower [''c''] then Some ''c''
            else if someIncluded tagLower [''go'', ''golang''] then Some ''go''
            else if someIncluded tagLower [''php''] then Some ''php''
            else if someIncluded tagLower [''ruby''] then Some ''ruby''
            else if someIncluded tagLower [''rust''] then Some ''rust''
            else Some ''python'')
         else if category = JStr ''system-devops'' then
           (if someIncluded tagLower [''linux'', ''bash'', ''shell''] then Some ''linux''
            else if someIncluded tagLower [''docker'', ''container''] then Some ''containerization''
            else if someIncluded tagLower [''aws'', ''azure'', ''gcp'', ''cloud''] then Some ''cloud''
            else if someIncluded tagLower [''git'', ''github'', ''gitlab'']
              then Some ''version-control''
            else Some ''shell'')
         else if category = JStr ''web-frontend'' then
           (if someIncluded tagLower [''css''] then Some ''css''
            else if someIncluded tagLower [''html''] then Some ''html''
            else Some ''javascript'')
         else subcategory)
      else subcategory)"

section \<open>Identifier generator\<close>

subsection \<open>SHA-256\<close>

text \<open>The hash of \<open>crypto.createHash('sha256')\<close>, written out after FIPS 180-4 on bytes and
  32-bit words.\<close>

definition rotr :: "nat \<Rightarrow> 32 word \<Rightarrow> 32 word" where
  "rotr n x = word_rotr n x"

definition Ch :: "32 word \<Rightarrow> 32 word \<Rightarrow> 32 word \<Rightarrow> 32 word" where
  "Ch x y z = (x AND y) XOR (NOT x AND z)"

definition Maj :: "32 word \<Rightarrow> 32 word \<Rightarrow> 32 word \<Rightarrow> 32 word" where
  "Maj x y z = (x AND y) XOR (x AND z) XOR (y AND z)"

definition bigSigma0 :: "32 word \<Rightarrow> 32 word" where
  "bigSigma0 x = rotr 2 x XOR rotr 13 x XOR rotr 22 x"

definition bigSigma1 :: "32 word \<Rightarrow> 32 word" where
  "bigSigma1 x = rotr 6 x XOR rotr 11 x XOR rotr 25 x"

definition smallSigma0 :: "32 word \<Rightarrow> 32 word" where
  "smallSigma0 x = rotr 7 x XOR rotr 18 x XOR drop_bit 3 x"

definition smallSigma1 :: "32 word \<Rightarrow> 32 word" where
  "smallSigma1 x = rotr 17 x XOR rotr 19 x XOR drop_bit 10 x"

definition sha256K :: "32 word list" where
  "sha256K =
     [0x428A2F98, 0x71374491, 0xB5C0FBCF, 0xE9B5DBA5, 0x3956C25B, 0x59F111F1,
      0x923F82A4, 0xAB1C5ED5, 0xD807AA98, 0x12835B01, 0x243185BE, 0x550C7DC3,
      0x72BE5D74, 0x80DEB1FE, 0x9BDC06A7, 0xC19BF174, 0xE49B69C1, 0xEFBE4786,
      0x0FC19DC6, 0x240CA1CC, 0x2DE92C6F, 0x4A7484AA, 0x5CB0A9DC, 0x76F988DA,
      0x983E5152, 0xA831C66D, 0xB00327C8, 0xBF597FC7, 0xC6E00BF3, 0xD5A79147,
      0x06CA6351, 0x14292967, 0x27B70A85, 0x2E1B2138, 0x4D2C6DFC, 0x53380D13,
      0x650A7354, 0x766A0ABB, 0x81C2C92E, 0x92722C85, 0xA2BFE8A1, 0xA81A664B,
      0xC24B8B70, 0xC76C51A3, 0xD192E819, 0xD6990624, 0xF40E3585, 0x106AA070,
      0x19A4C116, 0x1E376C08, 0x2748774C, 0x34B0BCB5, 0x391C0CB3, 0x4ED8AA4A,
      0x5B9CCA4F, 0x682E6FF3, 0x748F82EE, 0x78A5636F, 0x84C87814, 0x8CC70208,
      0x90BEFFFA, 0xA4506CEB, 0xBEF9A3F7, 0xC67178F2]"

type_synonym hashState =
  "32 word \<times> 32 word \<times> 32 word \<times> 32 word \<times> 32 word \<times> 32 word \<times> 32 word \<times> 32 word"

definition sha256Init :: hashState where
  "sha256Init = (0x6A09E667, 0xBB67AE85, 0x3C6EF372, 0xA54FF53A, 0x510E527F, 0x9B05688C, 0x1F83D9AB, 0x5BE0CD19)"

text \<open>Padding: the byte 0x80, zero bytes up to 56 modulo 64, the bit length as 64 bits,
  big-endian.\<close>

definition be64 :: "nat \<Rightarrow> 8 word list" where
  "be64 n = map (\<lambda>i. ucast (drop_bit (8 * (7 - i)) (of_nat n :: 64 word))) [0..<8]"

definition padMessage :: "8 word list \<Rightarrow> 8 word list" where
  "padMessage m =
     m @ [0x80] @ replicate ((119 - length m mod 64) mod 64) 0 @ be64 (8 * length m)"

function chunks :: "nat \<Rightarrow> 'a list \<Rightarrow> 'a list list" where
  "chunks n xs = (if n = 0 \<or> xs = [] then [] else take n xs # chunks n (drop n xs))"
  by pat_completeness auto
termination
  by (relation "measure (\<lambda>(n, xs). length xs)") auto

declare chunks.simps [simp del]

definition be32 :: "8 word list \<Rightarrow> 32 word" where
  "be32 bs = foldl (\<lambda>acc b. push_bit 8 acc OR ucast b) 0 bs"

text \<open>The message schedule: 16 words of the block, then 48 derived words.\<close>

fun extendSchedule :: "nat \<Rightarrow> 32 word list \<Rightarrow> 32 word list" where
  "extendSchedule 0 w = w"
| "extendSchedule (Suc n) w =
     extendSchedule n
       (w @ [smallSigma1 (w ! (length w - 2)) + w ! (length w - 7) +
             smallSigma0 (w ! (length w - 15)) + w ! (length w - 16)])"

definition schedule :: "8 word list \<Rightarrow> 32 word list" where
  "schedule block = extendSchedule 48 (map be32 (chunks 4 block))"

fun sha256Round :: "hashState \<Rightarrow> 32 word \<times> 32 word \<Rightarrow> hashState" where
  "sha256Round (a, b, c, d, e, f, g, h) (k, w) =
     (let T1 = h + bigSigma1 e + Ch e f g + k + w;
          T2 = bigSigma0 a + Maj a b c
      in (T1 + T2, a, b, c, d + T1, e, f, g))"

fun addState :: "hashState \<Rightarrow> hashState \<Rightarrow> hashState" where
  "addState (a, b, c, d, e, f, g, h) (a', b', c', d', e', f', g', h') =
     (a + a', b + b', c + c', d + d', e + e', f + f', g + g', h + h')"

definition compress :: "hashState \<Rightarrow> 8 word list \<Rightarrow> hashState" where
  "compress st block = addState st (foldl sha256Round st (zip sha256K (schedule block)))"

definition sha256 :: "8 word list \<Rightarrow> hashState" where
  "sha256 m = foldl compress sha256Init (chunks 64 (padMessage m))"

text \<open>\<open>digest('hex')\<close>: eight lowercase hexadecimal digits for each word.\<close>

definition hexChars :: string where
  "hexChars = ''0123456789abcdef''"

definition hexDigit :: "nat \<Rightarrow> char" where
  "hexDigit n = hexChars ! (n mod 16)"

definition hex32 :: "32 word \<Rightarrow> string" where
  "hex32 w = map (\<lambda>i. hexDigit (unat (drop_bit (4 * (7 - i)) w AND 0xF))) [0..<8]"

fun hexDigest :: "hashState \<Rightarrow> string" where
  "hexDigest (a, b, c, d, e, f, g, h) =
     hex32 a @ hex32 b @ hex32 c @ hex32 d @ hex32 e @ hex32 f @ hex32 g @ hex32 h"

text \<open>\<open>update(hashInput)\<close> hashes the UTF-8 encoding of the string: one byte for a code unit
  below 128, two bytes for a code unit from 128 to 255.\<close>

definition utf8Encode :: "string \<Rightarrow> 8 word list" where
  "utf8Encode s =
     concat (map (\<lambda>c. let n = (of_char c :: nat)
                       in if n < 128 then [of_nat n]
                          else [of_nat (192 + n div 64), of_nat (128 + n mod 64)]) s)"

subsection \<open>generateUniqueId\<close>

definition salt :: string where
  "salt = ''deepv-content-2025''"

definition generateUniqueId :: "string \<Rightarrow> string" where
  "generateUniqueId stackoverflowId =
     take 8 (hexDigest (sha256 (utf8Encode (salt @ ''-'' @ stackoverflowId))))"

subsection \<open>normalizeSlug\<close>

text \<open>
  \<^verbatim>\<open>slug.replace(/_/g, '-').replace(/[^a-z0-9-]/g, '-').replace(/-+/g, '-').replace(/^-|-$/g, '')\<close>
\<close>

definition slugChar :: "char \<Rightarrow> bool" where
  "slugChar c = (c \<in> set ''abcdefghijklmnopqrstuvwxyz0123456789-'')"

definition replaceUnderscores :: "string \<Rightarrow> string" where
  "replaceUnderscores s = map (\<lambda>c. if c = CHR ''_'' then CHR ''-'' else c) s"

definition replaceNonSlug :: "string \<Rightarrow> string" where
  "replaceNonSlug s = map (\<lambda>c. if slugChar c then c else CHR ''-'') s"

text \<open>\<open>/-+/g\<close> to \<open>'-'\<close>: every maximal run of hyphens becomes one hyphen.\<close>

fun collapseHyphens :: "string \<Rightarrow> string" where
  "collapseHyphens [] = []"
| "collapseHyphens [c] = [c]"
| "collapseHyphens (c # d # cs) =
     (if c = CHR ''-'' \<and> d = CHR ''-'' then collapseHyphens (d # cs)
      else c # collapseHyphens (d # cs))"

text \<open>
  \<open>/^-|-$/g\<close> to \<open>''\<close>: one hyphen at the start and one hyphen at the end are removed
  (the two matches never overlap: on \<open>"-"\<close> the first alternative consumes the only hyphen).
\<close>

definition dropTrailingHyphen :: "string \<Rightarrow> string" where
  "dropTrailingHyphen s = (if s \<noteq> [] \<and> last s = CHR ''-'' then butlast s else s)"

definition stripEdgeHyphens :: "string \<Rightarrow> string" where
  "stripEdgeHyphens s =
     (case s of
        [] \<Rightarrow> []
      | c # cs \<Rightarrow> if c = CHR ''-'' then dropTrailingHyphen cs else dropTrailingHyphen s)"

definition normalizeSlug :: "string \<Rightarrow> string" where
  "normalizeSlug slug =
     stripEdgeHyphens (collapseHyphens (replaceNonSlug (replaceUnderscores slug)))"

text \<open>The kebab-case pattern: lowercase alphanumerics and hyphens, no leading, trailing or
  doubled hyphen.\<close>

fun noDoubleHyphen :: "string \<Rightarrow> bool" where
  "noDoubleHyphen [] = True"
| "noDoubleHyphen [c] = True"
| "noDoubleHyphen (c # d # cs) = (\<not> (c = CHR ''-'' \<and> d = CHR ''-'') \<and> noDoubleHyphen (d # cs))"

definition isKebab :: "string \<Rightarrow> bool" where
  "isKebab s = (list_all slugChar s \<and> noDoubleHyphen s \<and>
                (s = [] \<or> (hd s \<noteq> CHR ''-'' \<and> last s \<noteq> CHR ''-'')))"

section \<open>Body rewriting\<close>

text \<open>
  \<open>content.replace(/re/g, ...)\<close> scans the string from left to right: where the expression
  matches at the current position the replacement is emitted and the scan goes on behind the
  match, elsewhere the character is copied. A matcher returns the replacement and the rest
  of the string behind the match; the matches of the three expressions below are never
  empty, so the rest is shorter than the string.
\<close>

function replaceAll :: "(string \<Rightarrow> (string \<times> string) option) \<Rightarrow> string \<Rightarrow> string" where
  "replaceAll m [] = []"
| "replaceAll m (c # cs) =
     (case m (c # cs) of
        None \<Rightarrow> c # replaceAll m cs
      | Some (out, rest) \<Rightarrow>
          if length rest \<le> length cs then out @ replaceAll m rest
          else c # replaceAll m cs)"
  by pat_completeness auto
termination
  by (relation "measure (\<lambda>(m, s). length s)") auto

subsection \<open>processCodeBlocks\<close>

definition languageMappings :: "(string \<times> string) list" where
  "languageMappings =
     [(''js'', ''javascript''), (''jsx'', ''jsx''), (''ts'', ''typescript''), (''tsx'', ''tsx''),
      (''py'', ''python''), (''python3'', ''python''), (''sh'', ''bash''), (''shell'', ''bash''),
      (''zsh'', ''bash''), (''cmd'', ''powershell''), (''yml'', ''yaml''), (''yaml'', ''yaml''),
      (''dockerfile'', ''docker''), (''html'', ''html''), (''css'', ''css''), (''scss'', ''scss''),
      (''sql'', ''sql''), (''json'', ''json''), (''xml'', ''xml''), (''md'', ''markdown''),
      (''markdown'', ''markdown''), (''mermaid'', ''mermaid''), (''text'', ''text''),
      (''plain'', ''text''), (''txt'', ''text''), (''output'', ''output''),
      (''console'', ''output''), (''config'', ''config''), (''conf'', ''config'')]"

text \<open>\<open>\w\<close>\<close>

definition wordChar :: "char \<Rightarrow> bool" where
  "wordChar c =
     (c \<in> set ''ABCDEFGHIJKLMNOPQRSTUVWXYZabcdefghijklmnopqrstuvwxyz0123456789_'')"

definition fence :: string where
  "fence = [CHR 0x60, CHR 0x60, CHR 0x60]"

definition newline :: char where
  "newline = CHR 0x0A"

text \<open>\<open>this.languageMappings[language.toLowerCase()] || language.toLowerCase()\<close>\<close>

definition mappedLanguage :: "string \<Rightarrow> string" where
  "mappedLanguage language =
     (case objLookup languageMappings (toLowerCase language) of
        Some v \<Rightarrow> toStr v
      | None \<Rightarrow> toLowerCase language)"

text \<open>\<open>/```(\w+)/\<close> at the head of the string.\<close>

definition matchLanguage :: "string \<Rightarrow> (string \<times> string) option" where
  "matchLanguage s =
     (if prefix fence s \<and> takeWhile wordChar (drop 3 s) \<noteq> []
      then Some (fence @ mappedLanguage (takeWhile wordChar (drop 3 s)),
                 dropWhile wordChar (drop 3 s))
      else None)"

definition mermaidKeywords :: "string list" where
  "mermaidKeywords = [''graph'', ''flowchart'', ''sequenceDiagram'', ''classDiagram'', ''gitgraph'']"

text \<open>\<open>/```\n(graph|flowchart|sequenceDiagram|classDiagram|gitgraph)/\<close> at the head of the
  string; the alternatives are tried in their order.\<close>

definition matchMermaid :: "string \<Rightarrow> (string \<times> string) option" where
  "matchMermaid s =
     (if prefix (fence @ [newline]) s then
        (case find (\<lambda>k. prefix k (drop 4 s)) mermaidKeywords of
           Some k \<Rightarrow> Some (fence @ ''mermaid'' @ [newline] @ k, drop (4 + length k) s)
         | None \<Rightarrow> None)
      else None)"

definition processCodeBlocks :: "string \<Rightarrow> string" where
  "processCodeBlocks content = replaceAll matchMermaid (replaceAll matchLanguage content)"

subsection \<open>processImagePlaceholders\<close>

text \<open>
  \<open>/!\[([^\]]+)\]\((?!PLACEHOLDER:)([^)]+)\)/\<close> at the head of the string. Both groups are
  greedy runs that end at the first closing character, so backtracking finds no other
  match; the result is the two groups and the rest behind the closing parenthesis.
\<close>

definition matchImage :: "string \<Rightarrow> (string \<times> string \<times> string) option" where
  "matchImage s =
     (if prefix ''!['' s then
        (let alt = takeWhile (\<lambda>c. c \<noteq> CHR '']'') (drop 2 s);
             r1 = dropWhile (\<lambda>c. c \<noteq> CHR '']'') (drop 2 s)
         in if alt \<noteq> [] \<and> prefix '']('' r1 \<and> \<not> prefix ''PLACEHOLDER:'' (drop 2 r1) then
              (let target = takeWhile (\<lambda>c. c \<noteq> CHR '')'') (drop 2 r1);
                   r2 = dropWhile (\<lambda>c. c \<noteq> CHR '')'') (drop 2 r1)
               in if target \<noteq> [] \<and> prefix '')'' r2 then Some (alt, target, drop 1 r2)
                  else None)
            else None)
      else None)"

text \<open>The replacement \<open>'![$1](PLACEHOLDER: $1 - $2)'\<close>.\<close>

definition placeholderFor :: "string \<Rightarrow> string \<Rightarrow> string" where
  "placeholderFor alt target =
     ''!['' @ alt @ ''](PLACEHOLDER: '' @ alt @ '' - '' @ target @ '')''"

definition matchImageReplace :: "string \<Rightarrow> (string \<times> string) option" where
  "matchImageReplace s =
     (case matchImage s of
        None \<Rightarrow> None
      | Some (alt, target, rest) \<Rightarrow> Some (placeholderFor alt target, rest))"

definition processImagePlaceholders :: "string \<Rightarrow> string" where
  "processImagePlaceholders content = replaceAll matchImageReplace content"

section \<open>Records\<close>

text \<open>An entry of the article index. Entries read from \<open>article-index.json\<close> may lack
  any field; the entries the converter adds have them all.\<close>

record article =
  id' :: "string option"
  title :: "string option"
  slug :: "string option"
  category :: "jsval option"
  subcategory :: "string option"
  difficulty :: "string option"
  technology :: "jsval option"
  readTime :: "int option"
  publishedAt :: "string option"
  featured :: "bool option"
  description :: "string option"
  tags :: "string list option"
  filename :: "string option"
  lastUpdated :: "string option"

record articleIndex =
  lastUpdated :: string
  totalArticles :: nat
  categories :: "jsval option list"
  technologies :: "jsval option list"
  articles :: "article list"

text \<open>The input file: \<open>{ metadata: {...}, content: "..." }\<close>. Fields the converter never
  reads are left out. \<open>category\<close> holds a string in the input; the validator may store the
  result of \<open>mapCategory\<close> there.\<close>

record qualityMetrics =
  wordCount :: "int option"
  codeBlocks :: "int option"

record metadata =
  title :: "string option"
  slug :: "string option"
  uniqueId :: "string option"
  category :: "jsval option"
  subcategory :: "string option"
  description :: "string option"
  tags :: "string list option"
  difficulty :: "string option"
  readTime :: "int option"
  featured :: "bool option"
  technology :: "string option"
  publishedAt :: "string option"
  generatedAt :: "string option"
  sourceStackOverflowId :: "string option"
  qualityMetrics :: "qualityMetrics option"

record jsonData =
  metadata :: "metadata option"
  content :: "string option"

section \<open>Record validator\<close>

text \<open>The lines \<open>validateJsonStructure\<close> prints with \<open>console.log\<close>, in the order printed:
  the two auto-mapping notes (before and after value), the two identifier notes, and the
  quality warnings.\<close>

datatype logLine =
    AutoMappingCategory "jsval option" jsval
  | AutoMappingSubcategory "string option" "string option"
  | GeneratedMissingUniqueId string
  | CorrectedUniqueId string string
  | VeryHighCodeToTextRatio
  | NoQualityMetricsProvided

definition requiredFields :: "string list" where
  "requiredFields = [''title'', ''slug'', ''uniqueId'', ''category'', ''subcategory'',
                     ''description'', ''tags'', ''difficulty'', ''readTime'']"

text \<open>\<open>!meta[field]\<close> for the names in \<open>requiredFields\<close>.\<close>

definition fieldTruthy :: "metadata \<Rightarrow> string \<Rightarrow> bool" where
  "fieldTruthy meta field =
     (if field = ''title'' then truthyS (title meta)
      else if field = ''slug'' then truthyS (slug meta)
      else if field = ''uniqueId'' then truthyS (uniqueId meta)
      else if field = ''category'' then truthyV (category meta)
      else if field = ''subcategory'' then truthyS (subcategory meta)
      else if field = ''description'' then truthyS (description meta)
      else if field = ''tags'' then truthyO (tags meta)
      else if field = ''difficulty'' then truthyS (difficulty meta)
      else if field = ''readTime'' then truthyN (readTime meta)
      else False)"

text \<open>\<open>/^[a-f0-9]{8}$/.test(s)\<close>\<close>

definition isHex8 :: "string \<Rightarrow> bool" where
  "isHex8 s = (length s = 8 \<and> list_all (\<lambda>c. c \<in> set ''abcdef0123456789'') s)"

text \<open>The auto-fix of category and subcategory: the first block under
  \<open>if (jsonData.metadata)\<close>.\<close>

definition autoFixCategories :: "taxCategory list \<Rightarrow> metadata \<Rightarrow> logLine list \<times> metadata" where
  "autoFixCategories cats meta =
     (if truthyV (category meta) \<and> truthyO (tags meta) then
        (let mappedCategory = mapCategory cats (the (category meta)) (subcategory meta) (tags meta);
             mappedSubcategory = mapSubcategory mappedCategory (subcategory meta) (tags meta);
             (n1, meta1) =
               (if Some mappedCategory \<noteq> category meta
                then ([AutoMappingCategory (category meta) mappedCategory],
                      meta\<lparr>category := Some mappedCategory\<rparr>)
                else ([], meta));
             (n2, meta2) =
               (if mappedSubcategory \<noteq> subcategory meta1
                then ([AutoMappingSubcategory (subcategory meta1) mappedSubcategory],
                      meta1\<lparr>subcategory := mappedSubcategory\<rparr>)
                else ([], meta1))
         in (n1 @ n2, meta2))
      else ([], meta))"

text \<open>The second block: the identifier is generated, or replaced, from
  \<open>sourceStackOverflowId\<close>.\<close>

definition fixUniqueId :: "metadata \<Rightarrow> logLine list \<times> metadata" where
  "fixUniqueId meta =
     (if truthyS (sourceStackOverflowId meta) then
        (let expectedUniqueId = generateUniqueId (the (sourceStackOverflowId meta))
         in if \<not> truthyS (uniqueId meta)
            then ([GeneratedMissingUniqueId expectedUniqueId],
                  meta\<lparr>uniqueId := Some expectedUniqueId\<rparr>)
            else if uniqueId meta \<noteq> Some expectedUniqueId
            then ([CorrectedUniqueId (the (uniqueId meta)) expectedUniqueId],
                  meta\<lparr>uniqueId := Some expectedUniqueId\<rparr>)
            else ([], meta))
      else ([], meta))"

definition requiredFieldErrors :: "metadata \<Rightarrow> string list" where
  "requiredFieldErrors meta =
     map (\<lambda>field. ''Missing required metadata field: '' @ field)
         (filter (\<lambda>field. \<not> fieldTruthy meta field) requiredFields)"

definition formatErrors :: "metadata \<Rightarrow> string list" where
  "formatErrors meta =
     (if truthyS (uniqueId meta) \<and> \<not> isHex8 (the (uniqueId meta))
      then [''uniqueId must be 8-character hex string''] else []) @
     (if truthyS (difficulty meta) \<and>
         the (difficulty meta) \<notin> set [''beginner'', ''intermediate'', ''advanced'']
      then [''difficulty must be: beginner, intermediate, or advanced''] else []) @
     (if truthyS (description meta) \<and>
         (length (the (description meta)) < 20 \<or> length (the (description meta)) > 200)
      then [''description must be 20-200 characters''] else [])"

definition categoryErrors :: "taxCategory list \<Rightarrow> metadata \<Rightarrow> string list" where
  "categoryErrors cats meta =
     (if truthyV (category meta) then
        (let catExists = list_ex (\<lambda>cat. Some (JStr (cid cat)) = category meta) cats
         in (if \<not> catExists then [''Invalid category: '' @ showV (category meta)] else []) @
            (if catExists \<and> truthyS (subcategory meta) then
               (case find (\<lambda>cat. Some (JStr (cid cat)) = category meta) cats of
                  None \<Rightarrow> []
                | Some cat \<Rightarrow>
                    if list_ex (\<lambda>sub. Some sub = subcategory meta) (subcategories cat) then []
                    else [''Invalid subcategory: '' @ showS (subcategory meta) @
                          '' for category: '' @ showV (category meta)])
             else []))
      else [])"

text \<open>The quality block. \<open>metrics.codeBlocks && metrics.codeBlocks === 0\<close> never holds, so
  its warning is never printed.\<close>

definition qualityErrors :: "metadata \<Rightarrow> string list" where
  "qualityErrors meta =
     (case qualityMetrics meta of
        None \<Rightarrow> []
      | Some metrics \<Rightarrow>
          if truthyN (wordCount metrics) \<and> the (wordCount metrics) < 100
          then [''Content appears too short (< 100 words)''] else [])"

definition qualityNotes :: "platform \<Rightarrow> metadata \<Rightarrow> logLine list" where
  "qualityNotes P meta =
     (case qualityMetrics meta of
        None \<Rightarrow> [NoQualityMetricsProvided]
      | Some metrics \<Rightarrow>
          if truthyN (wordCount metrics) \<and> truthyN (codeBlocks metrics) \<and>
             ratioAbove50 P (the (codeBlocks metrics)) (the (wordCount metrics))
          then [VeryHighCodeToTextRatio] else [])"

text \<open>\<open>validateJsonStructure\<close> returns the errors; the model returns with them the printed
  notes and the record as the function leaves it (it assigns to \<open>meta.category\<close>,
  \<open>meta.subcategory\<close> and \<open>meta.uniqueId\<close> of the caller's object).\<close>

definition validateJsonStructure ::
  "platform \<Rightarrow> taxCategory list \<Rightarrow> jsonData \<Rightarrow> string list \<times> logLine list \<times> jsonData" where
  "validateJsonStructure P cats jsonData =
     (let errors0 =
            (if \<not> truthyO (metadata jsonData) then [''Missing metadata object''] else []) @
            (if \<not> truthyS (content jsonData) then [''Missing content field''] else [])
      in case metadata jsonData of
           None \<Rightarrow> (errors0, [], jsonData)
         | Some meta0 \<Rightarrow>
             (let (notes1, meta1) = autoFixCategories cats meta0;
                  (notes2, meta) = fixUniqueId meta1
              in (errors0 @ requiredFieldErrors meta @ formatErrors meta @
                  categoryErrors cats meta @ qualityErrors meta,
                  notes1 @ notes2 @ qualityNotes P meta,
                  jsonData\<lparr>metadata := Some meta\<rparr>)))"


text \<open>The older converter (\<open>json-to-mdx-converter.js\<close>) has the same function without the
  identifier block and without the quality block.\<close>

definition validateJsonStructureLegacy ::
  "taxCategory list \<Rightarrow> jsonData \<Rightarrow> string list \<times> logLine list \<times> jsonData" where
  "validateJsonStructureLegacy cats jsonData =
     (let errors0 =
            (if \<not> truthyO (metadata jsonData) then [''Missing metadata object''] else []) @
            (if \<not> truthyS (content jsonData) then [''Missing content field''] else [])
      in case metadata jsonData of
           None \<Rightarrow> (errors0, [], jsonData)
         | Some meta0 \<Rightarrow>
             (let (notes1, meta) = autoFixCategories cats meta0
              in (errors0 @ requiredFieldErrors meta @ formatErrors meta @
                  categoryErrors cats meta,
                  notes1,
                  jsonData\<lparr>metadata := Some meta\<rparr>)))"
section \<open>Field normalizer\<close>

subsection \<open>truncateTitle\<close>

text \<open>\<open>s.lastIndexOf(c)\<close>: the last position of the character, or -1.\<close>

definition lastIndexOf :: "string \<Rightarrow> char \<Rightarrow> int" where
  "lastIndexOf s c =
     (case filter (\<lambda>i. s ! i = c) (rev [0..<length s]) of
        [] \<Rightarrow> - 1
      | i # _ \<Rightarrow> int i)"

text \<open>\<open>truncateTitle(title, maxLength = null)\<close>. The default is \<open>None\<close>. The comparison
  \<open>lastSpaceIndex > maxLength * 0.7\<close> is made in floating point and is left to the
  platform.\<close>

definition truncateTitle ::
  "platform \<Rightarrow> string option \<Rightarrow> nat option \<Rightarrow> jserror + string option" where
  "truncateTitle P title0 maxLength =
     (case maxLength of
        None \<Rightarrow> Inr title0
      | Some m \<Rightarrow>
          (case title0 of
             None \<Rightarrow> Inl TypeError
           | Some t \<Rightarrow>
               if length t \<le> m then Inr (Some t)
               else
                 (let truncated = take m t;
                      lastSpaceIndex = lastIndexOf truncated (CHR '' '')
                  in if above70Percent P lastSpaceIndex m
                     then Inr (Some (take (nat lastSpaceIndex) truncated))
                     else Inr (Some truncated))))"

subsection \<open>formatISODate\<close>

text \<open>An absent or unparsable date gives the current instant. The date is a string or
  absent (\<open>undefined\<close>); a JSON \<open>null\<close>, for which \<open>new Date(null)\<close> is the epoch, is not a
  value of the model.\<close>

definition formatISODate :: "platform \<Rightarrow> string option \<Rightarrow> string" where
  "formatISODate P dateString =
     (case dateString of
        None \<Rightarrow> now P
      | Some s \<Rightarrow> (case parseDate P s of None \<Rightarrow> now P | Some parsed \<Rightarrow> parsed))"

text \<open>\<open>a || b\<close> on two optional strings.\<close>

definition orElse :: "string option \<Rightarrow> string option \<Rightarrow> string option" where
  "orElse a b = (if truthyS a then a else b)"

section \<open>Document composer\<close>

definition dquote :: char where
  "dquote = CHR 0x22"

definition backslash :: char where
  "backslash = CHR 0x5C"

text \<open>\<open>s.replace(/"/g, '\\"')\<close>\<close>

definition escapeQuotes :: "string \<Rightarrow> string" where
  "escapeQuotes s = concat (map (\<lambda>c. if c = dquote then [backslash, dquote] else [c]) s)"

text \<open>\<open>JSON.stringify\<close> of the tag list.\<close>

definition jsonEscapeChar :: "char \<Rightarrow> string" where
  "jsonEscapeChar c =
     (if c = dquote then [backslash, dquote]
      else if c = backslash then [backslash, backslash]
      else if c = CHR 0x08 then [backslash, CHR ''b'']
      else if c = CHR 0x0C then [backslash, CHR ''f'']
      else if c = CHR 0x0A then [backslash, CHR ''n'']
      else if c = CHR 0x0D then [backslash, CHR ''r'']
      else if c = CHR 0x09 then [backslash, CHR ''t'']
      else if (of_char c :: nat) < 32
        then [backslash, CHR ''u'', CHR ''0'', CHR ''0'',
              hexDigit ((of_char c :: nat) div 16), hexDigit (of_char c)]
      else [c])"

definition jsonQuote :: "string \<Rightarrow> string" where
  "jsonQuote s = [dquote] @ concat (map jsonEscapeChar s) @ [dquote]"

fun joinWith :: "string \<Rightarrow> string list \<Rightarrow> string" where
  "joinWith sep [] = []"
| "joinWith sep [x] = x"
| "joinWith sep (x # y # ys) = x @ sep @ joinWith sep (y # ys)"

definition stringifyTags :: "string list option \<Rightarrow> string" where
  "stringifyTags ts =
     (case ts of
        None \<Rightarrow> ''undefined''
      | Some xs \<Rightarrow> ''['' @ joinWith '','' (map jsonQuote xs) @ '']'')"

text \<open>\<open>metadata.featured || false\<close>\<close>

definition featuredOrFalse :: "bool option \<Rightarrow> bool" where
  "featuredOrFalse f = (f = Some True)"

definition showBool :: "bool \<Rightarrow> string" where
  "showBool b = (if b then ''true'' else ''false'')"

subsection \<open>generateMdxFrontmatter\<close>

text \<open>Calling \<open>replace\<close> on an absent title, slug or description throws.\<close>

definition generateMdxFrontmatter :: "platform \<Rightarrow> metadata \<Rightarrow> jserror + string" where
  "generateMdxFrontmatter P md =
     (case truncateTitle P (title md) None of
        Inl e \<Rightarrow> Inl e
      | Inr title' \<Rightarrow>
          (case (title', slug md, description md) of
             (Some t, Some s, Some d) \<Rightarrow>
               (let slug' = normalizeSlug s;
                    lastUpdated' =
                      formatISODate P (orElse (generatedAt md) (publishedAt md))
                in Inr (''---'' @ [newline] @
                        ''title: '' @ [dquote] @ escapeQuotes t @ [dquote, newline] @
                        ''slug: '' @ [dquote] @ slug' @ [dquote, newline] @
                        ''category: '' @ [dquote] @ showV (category md) @ [dquote, newline] @
                        ''subcategory: '' @ [dquote] @ showS (subcategory md) @
                          [dquote, newline] @
                        ''description: '' @ [dquote] @ escapeQuotes d @ [dquote, newline] @
                        ''tags: '' @ stringifyTags (tags md) @ [newline] @
                        ''difficulty: '' @ [dquote] @ showS (difficulty md) @
                          [dquote, newline] @
                        ''readTime: '' @ showN (readTime md) @ [newline] @
                        ''lastUpdated: '' @ [dquote] @ lastUpdated' @ [dquote, newline] @
                        ''featured: '' @ showBool (featuredOrFalse (featured md)) @
                          [newline] @
                        ''---'' @ [newline, newline]))
           | _ \<Rightarrow> Inl TypeError))"

subsection \<open>convertJsonToMdx\<close>

text \<open>
  The result of a conversion: the file name, the text written to the file
  (\<open>mdxContent\<close>), the \<open>metadata\<close> object of the returned value (its \<open>lastUpdated\<close> is kept
  beside it, its \<open>filename\<close> is \<open>mdxFilename\<close>), and the caller's record as the function
  leaves it (it assigns the title and the normalized slug). The path of the file,
  \<open>path.join(mdxOutputDir, mdxFilename)\<close>, is not modelled. \<open>formatISODate\<close> is called twice,
  in \<open>generateMdxFrontmatter\<close> and again for the returned \<open>lastUpdated\<close>; where it falls back
  on the clock the first call reads \<open>now\<close> and the second \<open>later\<close>.
\<close>

record conversion =
  mdxFilename :: string
  mdxContent :: string
  resultMeta :: metadata
  resultLastUpdated :: string
  leftRecord :: jsonData

definition convertJsonToMdx :: "platform \<Rightarrow> jsonData \<Rightarrow> jserror + conversion" where
  "convertJsonToMdx P jsonData =
     (case (content jsonData, metadata jsonData) of
        (Some content0, Some metadata0) \<Rightarrow>
          (let content1 = processImagePlaceholders (processCodeBlocks content0)
           in case truncateTitle P (title metadata0) None of
                Inl e \<Rightarrow> Inl e
              | Inr title' \<Rightarrow>
                  (case slug metadata0 of
                     None \<Rightarrow> Inl TypeError
                   | Some s \<Rightarrow>
                       (let metadata1 = metadata0\<lparr>title := title', slug := Some (normalizeSlug s)\<rparr>;
                            mdxFilename' =
                              normalizeSlug s @ ''-'' @ showS (uniqueId metadata1) @ ''.mdx''
                        in case generateMdxFrontmatter P metadata1 of
                             Inl e \<Rightarrow> Inl e
                           | Inr frontmatter \<Rightarrow>
                               Inr \<lparr>mdxFilename = mdxFilename',
                                    mdxContent = frontmatter @ content1,
                                    resultMeta =
                                      metadata1\<lparr>featured :=
                                                  Some (featuredOrFalse (featured metadata1))\<rparr>,
                                    resultLastUpdated =
                                      formatISODate (P\<lparr>now := later P\<rparr>)
                                        (orElse (generatedAt metadata1) (publishedAt metadata1)),
                                    leftRecord = jsonData\<lparr>metadata := Some metadata1\<rparr>\<rparr>)))
      | _ \<Rightarrow> Inl TypeError)"


subsection \<open>Bodies made of text and image references\<close>

text \<open>
  A way to write down the bodies the image rewriting is stated for: a body is a sequence of
  stretches of text, standard image references \<open>![alt](target)\<close> and references already in
  the placeholder form.
\<close>

datatype bodyPart = Plain string | Image string string | Placeholder string string

fun renderPart :: "bodyPart \<Rightarrow> string" where
  "renderPart (Plain t) = t"
| "renderPart (Image alt target) = ''!['' @ alt @ '']('' @ target @ '')''"
| "renderPart (Placeholder alt target) = placeholderFor alt target"

definition renderBody :: "bodyPart list \<Rightarrow> string" where
  "renderBody ps = concat (map renderPart ps)"

text \<open>What the rewriting is to do with each part: a standard reference becomes a
  placeholder, everything else stays.\<close>

fun wrapPart :: "bodyPart \<Rightarrow> bodyPart" where
  "wrapPart (Image alt target) = Placeholder alt target"
| "wrapPart p = p"

text \<open>The two characters \<open>![\<close> somewhere in a string.\<close>

fun hasImageStart :: "string \<Rightarrow> bool" where
  "hasImageStart (a # b # cs) = ((a = CHR ''!'' \<and> b = CHR ''['') \<or> hasImageStart (b # cs))"
| "hasImageStart [a] = False"
| "hasImageStart [] = False"

text \<open>
  The bodies in which the parts are what the expression sees: text has no \<open>![\<close> in it and
  forms none with what follows; a standard reference has a non-empty alt text without \<open>]\<close>
  and a non-empty target without \<open>)\<close> that does not begin with \<open>PLACEHOLDER:\<close>; a
  placeholder has an alt text without \<open>]\<close>, and neither its alt text nor its target has
  \<open>![\<close> in it.
\<close>

fun wellFormedBody :: "bodyPart list \<Rightarrow> bool" where
  "wellFormedBody [] = True"
| "wellFormedBody (Plain t # rest) =
     (\<not> hasImageStart t \<and>
      \<not> (t \<noteq> [] \<and> last t = CHR ''!'' \<and> prefix ''['' (renderBody rest)) \<and>
      wellFormedBody rest)"
| "wellFormedBody (Image alt target # rest) =
     (alt \<noteq> [] \<and> CHR '']'' \<notin> set alt \<and> target \<noteq> [] \<and> CHR '')'' \<notin> set target \<and>
      \<not> prefix ''PLACEHOLDER:'' target \<and> wellFormedBody rest)"
| "wellFormedBody (Placeholder alt target # rest) =
     (CHR '']'' \<notin> set alt \<and> \<not> hasImageStart alt \<and> \<not> hasImageStart target \<and>
      wellFormedBody rest)"
section \<open>Catalog merger\<close>

subsection \<open>getTechnologyFromTags\<close>

definition technologyMappings :: "(string \<times> string) list" where
  "technologyMappings =
     [(''javascript'', ''JavaScript''), (''js'', ''JavaScript''), (''python'', ''Python''),
      (''py'', ''Python''), (''java'', ''Java''), (''sql'', ''SQL''),
      (''sql-server'', ''SQL Server''), (''mysql'', ''MySQL''), (''postgresql'', ''PostgreSQL''),
      (''mongodb'', ''MongoDB''), (''bash'', ''Bash''), (''shell'', ''Shell''),
      (''linux'', ''Linux''), (''windows'', ''Windows''), (''docker'', ''Docker''),
      (''aws'', ''AWS''), (''html'', ''HTML''), (''css'', ''CSS''), (''react'', ''React''),
      (''node'', ''Node.js''), (''npm'', ''npm'')]"

fun firstTechnology :: "string list \<Rightarrow> jsval" where
  "firstTechnology [] = JStr ''Programming''"
| "firstTechnology (tag # rest) =
     (case objLookup technologyMappings (toLowerCase tag) of
        Some tech \<Rightarrow> tech
      | None \<Rightarrow> firstTechnology rest)"

text \<open>\<open>for (const tag of tags)\<close> throws when \<open>tags\<close> is absent.\<close>

definition getTechnologyFromTags :: "string list option \<Rightarrow> jserror + jsval" where
  "getTechnologyFromTags ts =
     (case ts of None \<Rightarrow> Inl TypeError | Some xs \<Rightarrow> Inr (firstTechnology xs))"

subsection \<open>updateArticleIndex\<close>

text \<open>The index entry made from one conversion result.\<close>

definition toArticle :: "platform \<Rightarrow> conversion \<Rightarrow> jserror + article" where
  "toArticle P c =
     (let m = resultMeta c
      in case (if truthyS (technology m) then Inr (JStr (the (technology m)))
               else getTechnologyFromTags (tags m)) of
           Inl e \<Rightarrow> Inl e
         | Inr tech \<Rightarrow>
             Inr \<lparr>id' = uniqueId m,
                  title = title m,
                  slug = slug m,
                  category = category m,
                  subcategory = subcategory m,
                  difficulty = difficulty m,
                  technology = Some tech,
                  readTime = readTime m,
                  publishedAt =
                    orElse (publishedAt m) (orElse (generatedAt m) (Some (now P))),
                  featured = Some (featuredOrFalse (featured m)),
                  description = description m,
                  tags = tags m,
                  filename = Some (showS (slug m) @ ''-'' @ showS (uniqueId m) @ ''.mdx''),
                  lastUpdated = orElse (generatedAt m) (Some (now P))\<rparr>)"

text \<open>\<open>newArticles.map(...)\<close>: the first entry that throws ends the call.\<close>

fun mapArticles :: "platform \<Rightarrow> conversion list \<Rightarrow> jserror + article list" where
  "mapArticles P [] = Inr []"
| "mapArticles P (c # cs) =
     (case toArticle P c of
        Inl e \<Rightarrow> Inl e
      | Inr a \<Rightarrow> (case mapArticles P cs of Inl e \<Rightarrow> Inl e | Inr as \<Rightarrow> Inr (a # as)))"

text \<open>\<open>[...new Set(xs)]\<close>: the distinct values in the order of their first occurrence.\<close>

definition setOrder :: "'a list \<Rightarrow> 'a list" where
  "setOrder xs = rev (remdups (rev xs))"

text \<open>\<open>xs.sort()\<close> without a comparison function: \<open>undefined\<close> goes last, the other values
  are ordered by the code units of their string rendering; the sort is stable.\<close>

definition sortDefault :: "jsval option list \<Rightarrow> jsval option list" where
  "sortDefault xs =
     map Some (sort_key toStr (map the (filter (\<lambda>x. x \<noteq> None) xs))) @
     filter (\<lambda>x. x = None) xs"

definition updateArticleIndex ::
  "platform \<Rightarrow> articleIndex \<Rightarrow> conversion list \<Rightarrow> jserror + articleIndex" where
  "updateArticleIndex P articleIndex newArticles =
     (let existingArticles =
            filter (\<lambda>a. \<not> list_ex (\<lambda>newArticle. slug (resultMeta newArticle) = article.slug a)
                                    newArticles)
                   (articles articleIndex)
      in case mapArticles P newArticles of
           Inl e \<Rightarrow> Inl e
         | Inr added \<Rightarrow>
             (let updatedArticles = existingArticles @ added
              in Inr \<lparr>lastUpdated = now P,
                      totalArticles = length updatedArticles,
                      categories = sortDefault (setOrder (map article.category updatedArticles)),
                      technologies =
                        sortDefault
                          (setOrder (filter truthyV (map article.technology updatedArticles))),
                      articles = updatedArticles\<rparr>))"

text \<open>The order \<open>sort()\<close> leaves a list in: by string rendering, \<open>undefined\<close> last.\<close>

definition defaultLe :: "jsval option \<Rightarrow> jsval option \<Rightarrow> bool" where
  "defaultLe a b =
     (case (a, b) of
        (_, None) \<Rightarrow> True
      | (None, Some w) \<Rightarrow> False
      | (Some v, Some w) \<Rightarrow> toStr v \<le> toStr w)"

definition sortedDefault :: "jsval option list \<Rightarrow> bool" where
  "sortedDefault xs = sorted_wrt defaultLe xs"

section \<open>Example data\<close>

text \<open>A taxonomy, a platform and the record of the documented input format, for the concrete
  instances below.\<close>

definition exampleCategories :: "taxCategory list" where
  "exampleCategories =
     [\<lparr>cid = ''programming-languages'', subcategories = [''python'', ''java'', ''javascript'']\<rparr>,
      \<lparr>cid = ''databases'', subcategories = [''sql'', ''mysql'', ''postgresql'']\<rparr>,
      \<lparr>cid = ''web-frontend'', subcategories = [''javascript'', ''css'', ''html'']\<rparr>,
      \<lparr>cid = ''system-devops'', subcategories = [''linux'', ''shell'', ''cloud'']\<rparr>,
      \<lparr>cid = ''mobile'', subcategories = [''android'', ''ios'']\<rparr>]"

definition examplePlatform :: platform where
  "examplePlatform =
     \<lparr>now = ''2025-10-01T08:00:00.000Z'',
      later = ''2025-10-01T08:00:00.002Z'',
      parseDate = (\<lambda>s. if s = ''2025-09-19T10:30:00.000Z'' then Some s else None),
      ratioAbove50 = (\<lambda>c w. 50 * w < 100 * c),
      above70Percent = (\<lambda>i m. 7 * int m < 10 * i)\<rparr>"

definition exampleMetadata :: metadata where
  "exampleMetadata =
     \<lparr>title = Some ''How to Parse JSON in JavaScript'',
      slug = Some ''how-to-parse-json-in-javascript'',
      uniqueId = Some ''abc12345'',
      category = Some (JStr ''web-frontend''),
      subcategory = Some ''javascript'',
      description = Some ''Complete guide to JSON parsing in JavaScript with examples'',
      tags = Some [''javascript'', ''json'', ''parsing''],
      difficulty = Some ''beginner'',
      readTime = Some 8,
      featured = Some False,
      technology = Some ''JavaScript'',
      publishedAt = Some ''2025-09-19'',
      generatedAt = Some ''2025-09-19T10:30:00.000Z'',
      sourceStackOverflowId = None,
      qualityMetrics = Some \<lparr>wordCount = Some 2500, codeBlocks = Some 12\<rparr>\<rparr>"

definition exampleRecord :: jsonData where
  "exampleRecord = \<lparr>metadata = Some exampleMetadata, content = Some ''# How to Parse JSON''\<rparr>"

text \<open>The scenario of the specification for the resolver: category \<open>programming\<close>, tag
  \<open>python\<close>, subcategory \<open>general\<close>.\<close>

definition programmingRecord :: jsonData where
  "programmingRecord =
     exampleRecord\<lparr>metadata :=
       Some (exampleMetadata\<lparr>category := Some (JStr ''programming''),
                             subcategory := Some ''general'',
                             tags := Some [''python'']\<rparr>)\<rparr>"

text \<open>A record with 50 words.\<close>

definition shortRecord :: jsonData where
  "shortRecord =
     exampleRecord\<lparr>metadata :=
       Some (exampleMetadata\<lparr>qualityMetrics :=
                               Some \<lparr>wordCount = Some 50, codeBlocks = Some 1\<rparr>\<rparr>)\<rparr>"

text \<open>A record with an empty \<open>uniqueId\<close> and a source key.\<close>

definition sourceKeyRecord :: jsonData where
  "sourceKeyRecord =
     exampleRecord\<lparr>metadata :=
       Some (exampleMetadata\<lparr>uniqueId := Some '''',
                             sourceStackOverflowId := Some ''42''\<rparr>)\<rparr>"

text \<open>The title of 167 characters of the schema update notes.\<close>

definition longTitle :: string where
  "longTitle = ''This is a Very Long Title That Would Have Been Truncated Under the Old Schema But Should Now Be Preserved Completely Because Google Indexes Entire Titles for SEO Value''"

definition longTitleRecord :: jsonData where
  "longTitleRecord =
     exampleRecord\<lparr>metadata := Some (exampleMetadata\<lparr>title := Some longTitle\<rparr>)\<rparr>"

text \<open>A record that supplies no date.\<close>

definition noDateRecord :: jsonData where
  "noDateRecord =
     exampleRecord\<lparr>metadata :=
       Some (exampleMetadata\<lparr>publishedAt := None, generatedAt := None\<rparr>)\<rparr>"

text \<open>Two more input files with the slug of the documented record: one with another
  identifier, one that moves the article to the category \<open>databases\<close>.\<close>

definition twinRecord :: jsonData where
  "twinRecord =
     exampleRecord\<lparr>metadata := Some (exampleMetadata\<lparr>uniqueId := Some ''def67890''\<rparr>)\<rparr>"

definition databaseRecord :: jsonData where
  "databaseRecord =
     exampleRecord\<lparr>metadata :=
       Some (exampleMetadata\<lparr>category := Some (JStr ''databases''),
                             subcategory := Some ''mysql'',
                             tags := Some [''mysql'', ''json''],
                             technology := Some ''MySQL''\<rparr>)\<rparr>"

definition emptyIndex :: articleIndex where
  "emptyIndex =
     \<lparr>lastUpdated = ''2025-09-01T00:00:00.000Z'', totalArticles = 0, categories = [],
      technologies = [], articles = []\<rparr>"

text \<open>An index that holds the article of the documented record.\<close>

definition oldIndex :: articleIndex where
  "oldIndex =
     \<lparr>lastUpdated = ''2025-09-20T00:00:00.000Z'',
      totalArticles = 1,
      categories = [Some (JStr ''web-frontend'')],
      technologies = [Some (JStr ''JavaScript'')],
      articles =
        [\<lparr>id' = Some ''abc12345'',
          title = Some ''How to Parse JSON in JavaScript'',
          slug = Some ''how-to-parse-json-in-javascript'',
          category = Some (JStr ''web-frontend''),
          subcategory = Some ''javascript'',
          difficulty = Some ''beginner'',
          technology = Some (JStr ''JavaScript''),
          readTime = Some 8,
          publishedAt = Some ''2025-09-19'',
          featured = Some False,
          description = Some ''Complete guide to JSON parsing in JavaScript with examples'',
          tags = Some [''javascript'', ''json'', ''parsing''],
          filename = Some ''how-to-parse-json-in-javascript-abc12345.mdx'',
          lastUpdated = Some ''2025-09-19T10:30:00.000Z''\<rparr>]\<rparr>"

section \<open>Properties of the field normalizer\<close>

lemma slugChar_hyphen: "slugChar (CHR ''-'')"
  by (simp add: slugChar_def)

lemma slugChar_underscore: "\<not> slugChar (CHR ''_'')"
  by (simp add: slugChar_def)

lemma replaceNonSlug_all: "list_all slugChar (replaceNonSlug s)"
  by (induction s) (simp_all add: replaceNonSlug_def slugChar_hyphen)

lemma replaceNonSlug_underscores: "replaceNonSlug (replaceUnderscores s) = replaceNonSlug s"
  by (induction s)
     (simp_all add: replaceNonSlug_def replaceUnderscores_def slugChar_hyphen slugChar_underscore)

lemma collapseHyphens_set: "set (collapseHyphens s) \<subseteq> set s"
  by (induction s rule: collapseHyphens.induct) auto

lemma collapseHyphens_all: "list_all P s \<Longrightarrow> list_all P (collapseHyphens s)"
  using collapseHyphens_set [of s] by (auto simp: list_all_iff)

lemma collapseHyphens_hd:
  "s \<noteq> [] \<Longrightarrow> collapseHyphens s \<noteq> [] \<and> hd (collapseHyphens s) = hd s"
  by (induction s rule: collapseHyphens.induct) auto

lemma collapseHyphens_noDouble: "noDoubleHyphen (collapseHyphens s)"
proof (induction s rule: collapseHyphens.induct)
  case (3 c d cs)
  have ne: "collapseHyphens (d # cs) \<noteq> []" and h: "hd (collapseHyphens (d # cs)) = d"
    using collapseHyphens_hd [of "d # cs"] by simp_all
  then obtain e es where e: "collapseHyphens (d # cs) = e # es"
    by (cases "collapseHyphens (d # cs)") auto
  with h have "e = d" by simp
  with 3 e show ?case by auto
qed simp_all

lemma noDouble_tl: "noDoubleHyphen (c # cs) \<Longrightarrow> noDoubleHyphen cs"
  by (cases cs) auto

lemma noDouble_butlast: "noDoubleHyphen s \<Longrightarrow> noDoubleHyphen (butlast s)"
  by (induction s rule: noDoubleHyphen.induct) (auto split: if_splits)

lemma noDouble_last:
  "noDoubleHyphen s \<Longrightarrow> s \<noteq> [] \<Longrightarrow> last s = CHR ''-'' \<Longrightarrow> butlast s \<noteq> [] \<Longrightarrow>
   last (butlast s) \<noteq> CHR ''-''"
  by (induction s rule: noDoubleHyphen.induct) (auto split: if_splits)

lemma dropTrailing_all: "list_all P s \<Longrightarrow> list_all P (dropTrailingHyphen s)"
  by (auto simp: dropTrailingHyphen_def list_all_iff dest: in_set_butlastD)

lemma dropTrailing_noDouble: "noDoubleHyphen s \<Longrightarrow> noDoubleHyphen (dropTrailingHyphen s)"
  by (simp add: dropTrailingHyphen_def noDouble_butlast)

lemma dropTrailing_last:
  "noDoubleHyphen s \<Longrightarrow> dropTrailingHyphen s \<noteq> [] \<Longrightarrow> last (dropTrailingHyphen s) \<noteq> CHR ''-''"
  using noDouble_last [of s] by (auto simp: dropTrailingHyphen_def)

lemma dropTrailing_hd: "dropTrailingHyphen s \<noteq> [] \<Longrightarrow> hd (dropTrailingHyphen s) = hd s"
  by (cases s) (auto simp: dropTrailingHyphen_def)

lemma dropTrailing_kebab:
  assumes "list_all slugChar s" "noDoubleHyphen s" "s \<noteq> [] \<Longrightarrow> hd s \<noteq> CHR ''-''"
  shows "isKebab (dropTrailingHyphen s)"
proof (cases "dropTrailingHyphen s = []")
  case True
  then show ?thesis by (simp add: isKebab_def)
next
  case False
  then have "s \<noteq> []" by (auto simp: dropTrailingHyphen_def)
  with assms(3) have "hd (dropTrailingHyphen s) \<noteq> CHR ''-''"
    using dropTrailing_hd [OF False] by simp
  moreover have "last (dropTrailingHyphen s) \<noteq> CHR ''-''"
    using dropTrailing_last [OF assms(2) False] .
  ultimately show ?thesis
    using dropTrailing_all [OF assms(1)] dropTrailing_noDouble [OF assms(2)]
    by (simp add: isKebab_def)
qed

lemma stripEdge_kebab:
  assumes "list_all slugChar s" "noDoubleHyphen s"
  shows "isKebab (stripEdgeHyphens s)"
proof (cases s)
  case Nil
  then show ?thesis by (simp add: stripEdgeHyphens_def isKebab_def)
next
  case (Cons c cs)
  show ?thesis
  proof (cases "c = CHR ''-''")
    case True
    have cs: "list_all slugChar cs" "noDoubleHyphen cs"
      using assms Cons noDouble_tl by auto
    have hd: "cs \<noteq> [] \<Longrightarrow> hd cs \<noteq> CHR ''-''"
      using assms(2) Cons True by (cases cs) auto
    have "stripEdgeHyphens s = dropTrailingHyphen cs"
      using Cons True by (simp add: stripEdgeHyphens_def)
    then show ?thesis using dropTrailing_kebab [OF cs hd] by simp
  next
    case False
    have "stripEdgeHyphens s = dropTrailingHyphen s"
      using Cons False by (simp add: stripEdgeHyphens_def)
    moreover have "s \<noteq> [] \<Longrightarrow> hd s \<noteq> CHR ''-''" using Cons False by simp
    ultimately show ?thesis using dropTrailing_kebab [OF assms] by simp
  qed
qed

lemma normalizeSlug_isKebab: "isKebab (normalizeSlug s)"
  unfolding normalizeSlug_def
  by (intro stripEdge_kebab collapseHyphens_all replaceNonSlug_all collapseHyphens_noDouble)

lemma replaceNonSlug_id: "list_all slugChar s \<Longrightarrow> replaceNonSlug s = s"
  by (induction s) (simp_all add: replaceNonSlug_def)

lemma collapseHyphens_id: "noDoubleHyphen s \<Longrightarrow> collapseHyphens s = s"
  by (induction s rule: collapseHyphens.induct) auto

lemma stripEdgeHyphens_id:
  "s = [] \<or> (hd s \<noteq> CHR ''-'' \<and> last s \<noteq> CHR ''-'') \<Longrightarrow> stripEdgeHyphens s = s"
  by (cases s) (auto simp: stripEdgeHyphens_def dropTrailingHyphen_def)

lemma normalizeSlug_id: "isKebab s \<Longrightarrow> normalizeSlug s = s"
  by (simp add: normalizeSlug_def isKebab_def replaceNonSlug_underscores replaceNonSlug_id
      collapseHyphens_id stripEdgeHyphens_id)

lemma normalizeSlug_idem: "normalizeSlug (normalizeSlug s) = normalizeSlug s"
  by (rule normalizeSlug_id) (rule normalizeSlug_isKebab)

lemma normalizeSlug_example: "normalizeSlug ''My_Article Title!'' = ''y-rticle-itle''"
  by (simp add: normalizeSlug_def stripEdgeHyphens_def dropTrailingHyphen_def replaceNonSlug_def
      replaceUnderscores_def slugChar_def)

text \<open>
  C2, as stated: slug normalization lowercases its input, so that
  \<open>normalizeSlug("My_Article Title!")\<close> is \<open>"my-article-title"\<close>. The source never lowercases:
  the capitals are outside \<open>[a-z0-9-]\<close> and become hyphens.
\<close>

theorem normalizeSlug_lowercase_counterexample:
  "normalizeSlug ''My_Article Title!'' \<noteq> ''my-article-title''"
  by (simp add: normalizeSlug_example)

text \<open>
  C2, amended: \<open>normalizeSlug\<close> turns every character that is not a lowercase letter or a
  digit (capitals, underscores, blanks, punctuation) into a hyphen, collapses the runs of
  hyphens and strips the hyphen at either end, without lowercasing anything. The result is
  always kebab-case, a kebab-case slug is left as it is, and
  \<open>normalizeSlug("My_Article Title!")\<close> is \<open>"y-rticle-itle"\<close>.
\<close>

theorem normalizeSlug_kebab_case:
  "normalizeSlug s =
     stripEdgeHyphens (collapseHyphens
       (map (\<lambda>c. if c \<in> set ''abcdefghijklmnopqrstuvwxyz0123456789'' then c else CHR ''-'') s))
   \<and> isKebab (normalizeSlug s)
   \<and> (isKebab s \<longrightarrow> normalizeSlug s = s)
   \<and> normalizeSlug ''My_Article Title!'' = ''y-rticle-itle''"
proof -
  have "replaceNonSlug s =
        map (\<lambda>c. if c \<in> set ''abcdefghijklmnopqrstuvwxyz0123456789'' then c else CHR ''-'') s"
    unfolding replaceNonSlug_def by (rule map_cong) (auto simp: slugChar_def)
  then show ?thesis
    using normalizeSlug_isKebab [of s] normalizeSlug_id [of s] normalizeSlug_example
    by (simp add: normalizeSlug_def replaceNonSlug_underscores)
qed

theorem normalizeSlug_kebab_case_witness:
  "isKebab ''my-article-title'' \<and> normalizeSlug ''my-article-title'' = ''my-article-title''"
proof -
  have k: "isKebab ''my-article-title''"
    by (simp add: isKebab_def slugChar_def)
  with normalizeSlug_kebab_case [of "''my-article-title''"] show ?thesis by blast
qed

section \<open>Properties of the taxonomy resolver\<close>

text \<open>
  C3, as stated: for a raw category outside the taxonomy, \<open>mapCategory\<close> tries the rename
  table first and scans the tag signals only when no rename applies. The source scans the
  tags first: \<open>frontend\<close> has the rename \<open>web-frontend\<close>, and with the tag \<open>docker\<close> it is
  mapped to \<open>system-devops\<close>.
\<close>

theorem mapCategory_rename_first_counterexample:
  "\<not> categoryExists exampleCategories (JStr ''frontend'')
   \<and> map_of categoryMappings ''frontend'' = Some ''web-frontend''
   \<and> mapCategory exampleCategories (JStr ''frontend'') (Some ''general'') (Some [''docker''])
       = JStr ''system-devops''"
  by (simp add: mapCategory_def categoryExists_def exampleCategories_def categoryMappings_def
      tagSignalCategory_def someIncluded_def tagsOrDefault_def toLowerCase_def lowerChar_def
      databaseTags_def devopsTags_def)

text \<open>
  C3, amended: for a raw category outside the taxonomy, \<open>mapCategory\<close> first scans the
  lowercased tags against the signal groups in the fixed order database, devops, frontend,
  mobile and returns the category of the first group that has a tag; only when no group
  matches does it look the raw category up in the rename table; without a rename the raw
  category is returned unchanged (unless it names a member every JavaScript object
  inherits, which the lookup then returns).
\<close>

theorem mapCategory_tags_then_rename:
  assumes "\<not> categoryExists cats (JStr c)"
  shows "mapCategory cats (JStr c) sub ts =
           (if someIncluded (map toLowerCase (tagsOrDefault ts)) databaseTags
              then JStr ''databases''
            else if someIncluded (map toLowerCase (tagsOrDefault ts)) devopsTags
              then JStr ''system-devops''
            else if someIncluded (map toLowerCase (tagsOrDefault ts)) frontendTags
              then JStr ''web-frontend''
            else if someIncluded (map toLowerCase (tagsOrDefault ts)) mobileTags
              then JStr ''mobile''
            else if c = ''programming'' then JStr ''programming-languages''
            else if c = ''devops'' then JStr ''system-devops''
            else if c = ''backend'' then JStr ''web-backend''
            else if c = ''frontend'' then JStr ''web-frontend''
            else if c = ''database'' \<or> c = ''db'' then JStr ''databases''
            else if c \<in> set objectPrototypeKeys then JProto c
            else JStr c)"
  using assms
  by (simp add: mapCategory_def tagSignalCategory_def objLookup_def categoryMappings_def)

theorem mapCategory_tags_then_rename_witness:
  "\<not> categoryExists exampleCategories (JStr ''database'')
   \<and> mapCategory exampleCategories (JStr ''database'') None (Some [''React'', ''hooks''])
       = JStr ''web-frontend''
   \<and> mapCategory exampleCategories (JStr ''database'') None (Some [''hooks''])
       = JStr ''databases''
   \<and> mapCategory exampleCategories (JStr ''tutorials'') None (Some [''hooks''])
       = JStr ''tutorials''"
proof -
  have n1: "\<not> categoryExists exampleCategories (JStr ''database'')"
    and n2: "\<not> categoryExists exampleCategories (JStr ''tutorials'')"
    by (simp_all add: categoryExists_def exampleCategories_def)
  show ?thesis
    using n1 mapCategory_tags_then_rename [OF n1, of None "Some [''React'', ''hooks'']"]
      mapCategory_tags_then_rename [OF n1, of None "Some [''hooks'']"]
      mapCategory_tags_then_rename [OF n2, of None "Some [''hooks'']"]
    by (simp add: someIncluded_def tagsOrDefault_def toLowerCase_def lowerChar_def
        databaseTags_def devopsTags_def frontendTags_def mobileTags_def objectPrototypeKeys_def)
qed

section \<open>Properties of the identifier generator\<close>

lemma hexDigit_range: "hexDigit n \<in> set hexChars"
proof -
  have "n mod 16 < length hexChars" by (simp add: hexChars_def)
  then show ?thesis unfolding hexDigit_def by (rule nth_mem)
qed

lemma length_hex32: "length (hex32 w) = 8"
  by (simp add: hex32_def)

lemma hex32_range: "set (hex32 w) \<subseteq> set hexChars"
  unfolding hex32_def using hexDigit_range by (simp add: image_subset_iff)

lemma take8_hexDigest: "take 8 (hexDigest st) = hex32 (fst st)"
  by (cases st rule: hexDigest.cases) (simp add: length_hex32)

lemma generateUniqueId_hex32:
  "generateUniqueId k = hex32 (fst (sha256 (utf8Encode (salt @ ''-'' @ k))))"
  by (simp add: generateUniqueId_def take8_hexDigest)

lemma hexChars_set: "set hexChars = set ''abcdef0123456789''"
  unfolding hexChars_def by (simp add: insert_commute)

lemma generateUniqueId_isHex8: "isHex8 (generateUniqueId k)"
  unfolding isHex8_def list_all_iff generateUniqueId_hex32
  using hex32_range hexChars_set length_hex32 by blast

lemma generateUniqueId_truthy: "generateUniqueId k \<noteq> []"
  using generateUniqueId_isHex8 [of k] by (auto simp: isHex8_def)

text \<open>The model of the hash reproduces the test vector of the standard for \<open>"abc"\<close>.\<close>

lemma sha256_abc:
  "sha256 (utf8Encode ''abc'') =
     (0xBA7816BF, 0x8F01CFEA, 0x414140DE, 0x5DAE2223,
      0xB00361A3, 0x96177A9C, 0xB410FF61, 0xF20015AD)"
  by code_simp

lemma generateUniqueId_42: "generateUniqueId ''42'' = ''20c31c35''"
  by code_simp

text \<open>
  C8: \<open>generateUniqueId\<close> returns the first 8 characters of the lowercase hexadecimal SHA-256
  digest of the salt \<open>deepv-content-2025\<close>, a hyphen and the key; the result always has 8
  characters, all of them lowercase hexadecimal digits. (Being a function of the key alone,
  two calls with the same key give the same value.)
\<close>

theorem generateUniqueId_sha256_hex8:
  "generateUniqueId k =
     take 8 (hexDigest (sha256 (utf8Encode (''deepv-content-2025'' @ ''-'' @ k))))
   \<and> length (generateUniqueId k) = 8
   \<and> list_all (\<lambda>c. c \<in> set ''0123456789abcdef'') (generateUniqueId k)
   \<and> isHex8 (generateUniqueId k)"
proof -
  have "generateUniqueId k =
          take 8 (hexDigest (sha256 (utf8Encode (''deepv-content-2025'' @ ''-'' @ k))))"
    by (simp add: generateUniqueId_def salt_def)
  moreover have "length (generateUniqueId k) = 8"
    by (simp add: generateUniqueId_hex32 length_hex32)
  moreover have "list_all (\<lambda>c. c \<in> set ''0123456789abcdef'') (generateUniqueId k)"
    unfolding generateUniqueId_hex32 list_all_iff
    using hex32_range unfolding hexChars_def by blast
  ultimately show ?thesis
    using generateUniqueId_isHex8 [of k] by blast
qed

theorem generateUniqueId_sha256_hex8_witness:
  "generateUniqueId ''42'' = ''20c31c35'' \<and> isHex8 ''20c31c35''"
proof -
  have v: "generateUniqueId ''42'' = ''20c31c35''"
    by (rule generateUniqueId_42)
  from generateUniqueId_sha256_hex8 [of "''42''"] have "isHex8 (generateUniqueId ''42'')"
    by blast
  with v show ?thesis by simp
qed

section \<open>Properties of the record validator\<close>

lemma autoFixCategories_record:
  "snd (autoFixCategories cats m) =
     (if truthyV (category m) \<and> truthyO (tags m)
      then m\<lparr>category := Some (mapCategory cats (the (category m)) (subcategory m) (tags m)),
             subcategory :=
               mapSubcategory (mapCategory cats (the (category m)) (subcategory m) (tags m))
                 (subcategory m) (tags m)\<rparr>
      else m)"
  by (auto simp: autoFixCategories_def Let_def split: prod.splits if_splits)

lemma fixUniqueId_record:
  "snd (fixUniqueId m) =
     (if truthyS (sourceStackOverflowId m)
      then m\<lparr>uniqueId := Some (generateUniqueId (the (sourceStackOverflowId m)))\<rparr>
      else m)"
  by (auto simp: fixUniqueId_def Let_def split: prod.splits if_splits)

lemma validate_record:
  "snd (snd (validateJsonStructure P cats j)) =
     (case metadata j of
        None \<Rightarrow> j
      | Some m \<Rightarrow> j\<lparr>metadata := Some (snd (fixUniqueId (snd (autoFixCategories cats m))))\<rparr>)"
  by (simp add: validateJsonStructure_def Let_def split: option.splits prod.splits)

lemma validate_errors:
  "metadata j = Some m \<Longrightarrow>
   fst (validateJsonStructure P cats j) =
     (if \<not> truthyS (content j) then [''Missing content field''] else []) @
     requiredFieldErrors (snd (fixUniqueId (snd (autoFixCategories cats m)))) @
     formatErrors (snd (fixUniqueId (snd (autoFixCategories cats m)))) @
     categoryErrors cats (snd (fixUniqueId (snd (autoFixCategories cats m)))) @
     qualityErrors (snd (fixUniqueId (snd (autoFixCategories cats m))))"
  by (simp add: validateJsonStructure_def Let_def truthyO_def split: option.splits prod.splits)

lemma validate_notes:
  "metadata j = Some m \<Longrightarrow>
   fst (snd (validateJsonStructure P cats j)) =
     fst (autoFixCategories cats m) @ fst (fixUniqueId (snd (autoFixCategories cats m))) @
     qualityNotes P (snd (fixUniqueId (snd (autoFixCategories cats m))))"
  by (simp add: validateJsonStructure_def Let_def split: option.splits prod.splits)

lemma fixed_fields:
  "snd (fixUniqueId (snd (autoFixCategories cats m))) =
     m\<lparr>category :=
         (if truthyV (category m) \<and> truthyO (tags m)
          then Some (mapCategory cats (the (category m)) (subcategory m) (tags m))
          else category m),
       subcategory :=
         (if truthyV (category m) \<and> truthyO (tags m)
          then mapSubcategory (mapCategory cats (the (category m)) (subcategory m) (tags m))
                 (subcategory m) (tags m)
          else subcategory m),
       uniqueId :=
         (if truthyS (sourceStackOverflowId m)
          then Some (generateUniqueId (the (sourceStackOverflowId m)))
          else uniqueId m)\<rparr>"
  by (simp add: fixUniqueId_record autoFixCategories_record)

lemma mapSubcategory_falsy:
  "\<not> truthyS sub \<Longrightarrow> mapSubcategory c sub ts = sub"
  by (auto simp: mapSubcategory_def truthyS_def)

lemma falsy_field_stays:
  assumes "field \<in> set requiredFields" "\<not> fieldTruthy m field"
    and "field = ''uniqueId'' \<longrightarrow> \<not> truthyS (sourceStackOverflowId m)"
  shows "\<not> fieldTruthy (snd (fixUniqueId (snd (autoFixCategories cats m)))) field"
  using assms
  unfolding fixed_fields requiredFields_def
  by (auto simp: fieldTruthy_def mapSubcategory_falsy split: if_splits)

lemma requiredFieldErrors_iff:
  "(''Missing required metadata field: '' @ field \<in> set (requiredFieldErrors m)) =
     (field \<in> set requiredFields \<and> \<not> fieldTruthy m field)"
  by (auto simp: requiredFieldErrors_def)

lemma legacy_errors:
  "metadata j = Some m \<Longrightarrow>
   fst (validateJsonStructureLegacy cats j) =
     (if \<not> truthyS (content j) then [''Missing content field''] else []) @
     requiredFieldErrors (snd (autoFixCategories cats m)) @
     formatErrors (snd (autoFixCategories cats m)) @
     categoryErrors cats (snd (autoFixCategories cats m))"
  by (simp add: validateJsonStructureLegacy_def Let_def truthyO_def
      split: option.splits prod.splits)

lemma legacy_record:
  "snd (snd (validateJsonStructureLegacy cats j)) =
     (case metadata j of
        None \<Rightarrow> j
      | Some m \<Rightarrow> j\<lparr>metadata := Some (snd (autoFixCategories cats m))\<rparr>)"
  by (simp add: validateJsonStructureLegacy_def Let_def split: option.splits prod.splits)

lemma falsy_field_stays_legacy:
  assumes "field \<in> set requiredFields" "\<not> fieldTruthy m field"
  shows "\<not> fieldTruthy (snd (autoFixCategories cats m)) field"
  using assms
  unfolding autoFixCategories_record requiredFields_def
  by (auto simp: fieldTruthy_def mapSubcategory_falsy split: if_splits)

text \<open>
  C10, as stated: every required field whose value is falsy, an empty \<open>uniqueId\<close> among
  them, is reported as missing and makes the record invalid. The newer validator fills
  \<open>uniqueId\<close> from \<open>sourceStackOverflowId\<close> before the presence check: a record with an empty
  \<open>uniqueId\<close> and the source key \<open>42\<close> passes without any error.
\<close>

theorem empty_uniqueId_not_reported_counterexample:
  "''uniqueId'' \<in> set requiredFields
   \<and> \<not> fieldTruthy (the (metadata sourceKeyRecord)) ''uniqueId''
   \<and> fst (validateJsonStructure examplePlatform exampleCategories sourceKeyRecord) = []"
proof -
  have m: "metadata sourceKeyRecord =
             Some (exampleMetadata\<lparr>uniqueId := Some [], sourceStackOverflowId := Some ''42''\<rparr>)"
    by (simp add: sourceKeyRecord_def exampleRecord_def)
  have c: "truthyS (content sourceKeyRecord)"
    by (simp add: sourceKeyRecord_def exampleRecord_def truthyS_def)
  have "fst (validateJsonStructure examplePlatform exampleCategories sourceKeyRecord) = []"
    unfolding validate_errors [OF m] fixed_fields
    using c
    by (simp add: exampleMetadata_def exampleCategories_def requiredFields_def fieldTruthy_def
        truthyS_def truthyV_def truthyO_def truthyN_def requiredFieldErrors_def formatErrors_def
        categoryErrors_def qualityErrors_def isHex8_def generateUniqueId_42 mapCategory_def
        mapSubcategory_def categoryExists_def objLookup_def categoryMappings_def
        objectPrototypeKeys_def)
  then show ?thesis
    by (simp add: m requiredFields_def fieldTruthy_def truthyS_def)
qed

text \<open>
  C10, amended: the presence check is a truthiness check made after the automatic fixes. A
  required field of the input whose value is falsy (absent, an empty string, \<open>readTime\<close> 0)
  is reported with \<open>Missing required metadata field: <name>\<close> and the record is invalid. The
  older validator does so for every required field; the newer one does so except for a
  falsy \<open>uniqueId\<close> beside a truthy \<open>sourceStackOverflowId\<close>, where the identifier is
  generated first.
\<close>

theorem missing_required_field_reported:
  assumes "metadata j = Some m" and "field \<in> set requiredFields"
    and "\<not> fieldTruthy m field"
  shows "''Missing required metadata field: '' @ field
           \<in> set (fst (validateJsonStructureLegacy cats j))
     \<and> (\<not> (field = ''uniqueId'' \<and> truthyS (sourceStackOverflowId m)) \<longrightarrow>
         ''Missing required metadata field: '' @ field
           \<in> set (fst (validateJsonStructure P cats j)))"
proof -
  have "''Missing required metadata field: '' @ field
          \<in> set (requiredFieldErrors (snd (autoFixCategories cats m)))"
    using falsy_field_stays_legacy [OF assms(2,3), of cats] assms(2)
    by (simp only: requiredFieldErrors_iff simp_thms)
  then have old: "''Missing required metadata field: '' @ field
                    \<in> set (fst (validateJsonStructureLegacy cats j))"
    unfolding legacy_errors [OF assms(1)] set_append by blast
  have new: "''Missing required metadata field: '' @ field
               \<in> set (fst (validateJsonStructure P cats j))"
    if "field = ''uniqueId'' \<longrightarrow> \<not> truthyS (sourceStackOverflowId m)"
  proof -
    have "''Missing required metadata field: '' @ field
            \<in> set (requiredFieldErrors (snd (fixUniqueId (snd (autoFixCategories cats m)))))"
      using falsy_field_stays [OF assms(2,3) that, of cats] assms(2)
      by (simp only: requiredFieldErrors_iff simp_thms)
    then show ?thesis
      unfolding validate_errors [OF assms(1)] set_append by blast
  qed
  from old new show ?thesis by blast
qed

theorem missing_required_field_reported_witness:
  "metadata (exampleRecord\<lparr>metadata := Some (exampleMetadata\<lparr>readTime := Some 0\<rparr>)\<rparr>)
     = Some (exampleMetadata\<lparr>readTime := Some 0\<rparr>)
   \<and> ''readTime'' \<in> set requiredFields
   \<and> \<not> fieldTruthy (exampleMetadata\<lparr>readTime := Some 0\<rparr>) ''readTime''
   \<and> ''Missing required metadata field: readTime''
       \<in> set (fst (validateJsonStructure examplePlatform exampleCategories
                      (exampleRecord\<lparr>metadata := Some (exampleMetadata\<lparr>readTime := Some 0\<rparr>)\<rparr>)))"
proof -
  have a: "metadata (exampleRecord\<lparr>metadata := Some (exampleMetadata\<lparr>readTime := Some 0\<rparr>)\<rparr>)
             = Some (exampleMetadata\<lparr>readTime := Some 0\<rparr>)"
    by simp
  have b: "''readTime'' \<in> set requiredFields"
    by (simp add: requiredFields_def)
  have c: "\<not> fieldTruthy (exampleMetadata\<lparr>readTime := Some 0\<rparr>) ''readTime''"
    by (simp add: fieldTruthy_def truthyN_def)
  show ?thesis
    using a b c missing_required_field_reported [OF a b c, of exampleCategories examplePlatform]
    by simp
qed

text \<open>
  C7, as stated: validation is pure and leaves the record's category, subcategory and id as
  they were. \<open>validateJsonStructure\<close> assigns the mapped values to the caller's object: the
  record with category \<open>programming\<close>, tag \<open>python\<close> and subcategory \<open>general\<close> comes back
  with category \<open>programming-languages\<close> and subcategory \<open>python\<close>.
\<close>

theorem validateJsonStructure_pure_counterexample:
  "snd (snd (validateJsonStructure examplePlatform exampleCategories programmingRecord))
     \<noteq> programmingRecord"
proof -
  have m: "metadata programmingRecord =
             Some (exampleMetadata\<lparr>category := Some (JStr ''programming''),
                                   subcategory := Some ''general'',
                                   tags := Some [''python'']\<rparr>)"
    by (simp add: programmingRecord_def exampleRecord_def)
  have "category (the (metadata
          (snd (snd (validateJsonStructure examplePlatform exampleCategories programmingRecord)))))
        = Some (JStr ''programming-languages'')"
    unfolding validate_record m option.case fixed_fields
    by (simp add: exampleMetadata_def exampleCategories_def truthyV_def truthyO_def
        mapCategory_def categoryExists_def tagSignalCategory_def someIncluded_def
        tagsOrDefault_def toLowerCase_def lowerChar_def databaseTags_def devopsTags_def
        frontendTags_def mobileTags_def objLookup_def categoryMappings_def)
  moreover have "category (the (metadata programmingRecord)) = Some (JStr ''programming'')"
    by (simp add: m)
  ultimately show ?thesis by auto
qed

text \<open>
  C7, amended: \<open>validateJsonStructure\<close> returns its errors and changes the record it was
  given in three fields only. When the category is truthy and the tags are present, the
  category becomes the result of \<open>mapCategory\<close> and the subcategory the result of
  \<open>mapSubcategory\<close>; when \<open>sourceStackOverflowId\<close> is truthy, \<open>uniqueId\<close> becomes the generated
  identifier (the older validator leaves \<open>uniqueId\<close> alone). Every other field, and the
  content, is as before.
\<close>

theorem validateJsonStructure_assigns_three_fields:
  "snd (snd (validateJsonStructure P cats j)) =
     (case metadata j of
        None \<Rightarrow> j
      | Some m \<Rightarrow>
          j\<lparr>metadata := Some (m
             \<lparr>category :=
                (if truthyV (category m) \<and> truthyO (tags m)
                 then Some (mapCategory cats (the (category m)) (subcategory m) (tags m))
                 else category m),
              subcategory :=
                (if truthyV (category m) \<and> truthyO (tags m)
                 then mapSubcategory
                        (mapCategory cats (the (category m)) (subcategory m) (tags m))
                        (subcategory m) (tags m)
                 else subcategory m),
              uniqueId :=
                (if truthyS (sourceStackOverflowId m)
                 then Some (generateUniqueId (the (sourceStackOverflowId m)))
                 else uniqueId m)\<rparr>)\<rparr>)
   \<and> snd (snd (validateJsonStructureLegacy cats j)) =
     (case metadata j of
        None \<Rightarrow> j
      | Some m \<Rightarrow>
          j\<lparr>metadata := Some (m
             \<lparr>category :=
                (if truthyV (category m) \<and> truthyO (tags m)
                 then Some (mapCategory cats (the (category m)) (subcategory m) (tags m))
                 else category m),
              subcategory :=
                (if truthyV (category m) \<and> truthyO (tags m)
                 then mapSubcategory
                        (mapCategory cats (the (category m)) (subcategory m) (tags m))
                        (subcategory m) (tags m)
                 else subcategory m)\<rparr>)\<rparr>)"
proof -
  have h: "snd (autoFixCategories cats m) =
          m\<lparr>category :=
               (if truthyV (category m) \<and> truthyO (tags m)
                then Some (mapCategory cats (the (category m)) (subcategory m) (tags m))
                else category m),
            subcategory :=
               (if truthyV (category m) \<and> truthyO (tags m)
                then mapSubcategory
                       (mapCategory cats (the (category m)) (subcategory m) (tags m))
                       (subcategory m) (tags m)
                else subcategory m)\<rparr>" for m
    by (simp add: autoFixCategories_record)
  show ?thesis
  proof (rule conjI)
    show "snd (snd (validateJsonStructure P cats j)) =
            (case metadata j of
               None \<Rightarrow> j
             | Some m \<Rightarrow>
                 j\<lparr>metadata := Some (m
                    \<lparr>category :=
                       (if truthyV (category m) \<and> truthyO (tags m)
                        then Some (mapCategory cats (the (category m)) (subcategory m) (tags m))
                        else category m),
                     subcategory :=
                       (if truthyV (category m) \<and> truthyO (tags m)
                        then mapSubcategory
                               (mapCategory cats (the (category m)) (subcategory m) (tags m))
                               (subcategory m) (tags m)
                        else subcategory m),
                     uniqueId :=
                       (if truthyS (sourceStackOverflowId m)
                        then Some (generateUniqueId (the (sourceStackOverflowId m)))
                        else uniqueId m)\<rparr>)\<rparr>)"
      unfolding validate_record fixed_fields by (rule refl)
  next
    show "snd (snd (validateJsonStructureLegacy cats j)) =
            (case metadata j of
               None \<Rightarrow> j
             | Some m \<Rightarrow>
                 j\<lparr>metadata := Some (m
                    \<lparr>category :=
                       (if truthyV (category m) \<and> truthyO (tags m)
                        then Some (mapCategory cats (the (category m)) (subcategory m) (tags m))
                        else category m),
                     subcategory :=
                       (if truthyV (category m) \<and> truthyO (tags m)
                        then mapSubcategory
                               (mapCategory cats (the (category m)) (subcategory m) (tags m))
                               (subcategory m) (tags m)
                        else subcategory m)\<rparr>)\<rparr>)"
      unfolding legacy_record h by (rule refl)
  qed
qed

theorem validateJsonStructure_assigns_three_fields_witness:
  "snd (snd (validateJsonStructure examplePlatform exampleCategories programmingRecord)) =
     exampleRecord\<lparr>metadata :=
       Some (exampleMetadata\<lparr>category := Some (JStr ''programming-languages''),
                             subcategory := Some ''python'',
                             tags := Some [''python'']\<rparr>)\<rparr>"
proof -
  have m: "metadata programmingRecord =
             Some (exampleMetadata\<lparr>category := Some (JStr ''programming''),
                                   subcategory := Some ''general'',
                                   tags := Some [''python'']\<rparr>)"
    by (simp add: programmingRecord_def exampleRecord_def)
  show ?thesis
    using validateJsonStructure_assigns_three_fields [of examplePlatform exampleCategories
        programmingRecord]
    unfolding m option.case
    by (simp add: programmingRecord_def exampleRecord_def exampleMetadata_def
        exampleCategories_def truthyV_def truthyO_def truthyS_def
        mapCategory_def mapSubcategory_def categoryExists_def tagSignalCategory_def
        someIncluded_def tagsOrDefault_def toLowerCase_def lowerChar_def databaseTags_def
        devopsTags_def frontendTags_def mobileTags_def objLookup_def categoryMappings_def)
qed

lemma tooShort_not_required:
  "''Content appears too short (< 100 words)'' \<notin> set (requiredFieldErrors m)"
  by (auto simp: requiredFieldErrors_def)

lemma tooShort_not_format:
  "''Content appears too short (< 100 words)'' \<notin> set (formatErrors m)"
  by (simp add: formatErrors_def)

lemma categoryErrors_shape:
  "x \<in> set (if c then (if \<not> e then [a] else []) @
                (if e \<and> s then (case f of None \<Rightarrow> [] | Some y \<Rightarrow> if g y then [] else [b])
                 else [])
             else [])
   \<Longrightarrow> x = a \<or> x = b"
  by (cases c; cases e; cases s; cases f; simp split: if_splits)

lemma categoryErrors_cases:
  assumes "x \<in> set (categoryErrors cats m)"
  shows "x = ''Invalid category: '' @ showV (category m) \<or>
         x = ''Invalid subcategory: '' @ showS (subcategory m) @ '' for category: '' @
               showV (category m)"
  using assms unfolding categoryErrors_def Let_def by (rule categoryErrors_shape)

lemma tooShort_not_category:
  "''Content appears too short (< 100 words)'' \<notin> set (categoryErrors cats m)"
proof -
  have "''Content appears too short (< 100 words)'' \<noteq> ''Invalid category: '' @ x" for x
    by simp
  moreover
  have "''Content appears too short (< 100 words)'' \<noteq> ''Invalid subcategory: '' @ x" for x
    by simp
  ultimately show ?thesis
    using categoryErrors_cases [of "''Content appears too short (< 100 words)''" cats m]
    by blast
qed

lemma tooShort_quality:
  "(''Content appears too short (< 100 words)'' \<in> set (qualityErrors m)) =
     (\<exists>qm w. qualityMetrics m = Some qm \<and> wordCount qm = Some w \<and> w \<noteq> 0 \<and> w < 100)"
  by (cases "qualityMetrics m") (auto simp: qualityErrors_def truthyN_def split: option.splits)

lemma fixed_qualityMetrics:
  "qualityMetrics (snd (fixUniqueId (snd (autoFixCategories cats m)))) = qualityMetrics m"
  by (simp add: fixed_fields)

text \<open>
  C4, as stated: in the newer flow a word count below 100 gives no error and the record
  stays valid. The newer \<open>validateJsonStructure\<close> pushes an error for it: the documented
  record with 50 words is rejected with \<open>Content appears too short (< 100 words)\<close>.
\<close>

theorem low_wordCount_advisory_counterexample:
  "fst (validateJsonStructure examplePlatform exampleCategories shortRecord) =
     [''Content appears too short (< 100 words)'']"
proof -
  have m: "metadata shortRecord =
             Some (exampleMetadata\<lparr>qualityMetrics :=
                                     Some \<lparr>wordCount = Some 50, codeBlocks = Some 1\<rparr>\<rparr>)"
    by (simp add: shortRecord_def exampleRecord_def)
  have c: "truthyS (content shortRecord)"
    by (simp add: shortRecord_def exampleRecord_def truthyS_def)
  show ?thesis
    unfolding validate_errors [OF m] fixed_fields
    using c
    by (simp add: exampleMetadata_def exampleCategories_def requiredFields_def fieldTruthy_def
        truthyS_def truthyV_def truthyO_def truthyN_def requiredFieldErrors_def formatErrors_def
        categoryErrors_def qualityErrors_def isHex8_def mapCategory_def
        mapSubcategory_def categoryExists_def objLookup_def categoryMappings_def
        objectPrototypeKeys_def)
qed

text \<open>
  C4, amended: in \<open>validateJsonStructure\<close> of the newer converter a word count below 100 is an
  error, not a warning: the error \<open>Content appears too short (< 100 words)\<close> is returned
  exactly when the quality metrics are present and their word count is a non-zero number
  below 100, and such a record is invalid. An absent or zero word count gives no error, and
  the older validator never gives this error.
\<close>

theorem low_wordCount_is_error:
  assumes "metadata j = Some m"
  shows "(''Content appears too short (< 100 words)''
            \<in> set (fst (validateJsonStructure P cats j))) =
         (\<exists>qm w. qualityMetrics m = Some qm \<and> wordCount qm = Some w \<and> w \<noteq> 0 \<and> w < 100)
     \<and> ''Content appears too short (< 100 words)''
            \<notin> set (fst (validateJsonStructureLegacy cats j))"
proof -
  have ne: "''Content appears too short (< 100 words)'' \<noteq> ''Missing content field''"
    by simp
  then have "(''Content appears too short (< 100 words)''
            \<in> set (fst (validateJsonStructure P cats j))) =
         (\<exists>qm w. qualityMetrics m = Some qm \<and> wordCount qm = Some w \<and> w \<noteq> 0 \<and> w < 100)"
    unfolding validate_errors [OF assms] set_append
    using tooShort_not_required tooShort_not_format tooShort_not_category
      tooShort_quality [of "snd (fixUniqueId (snd (autoFixCategories cats m)))"]
    unfolding fixed_qualityMetrics
    by auto
  moreover from ne have "''Content appears too short (< 100 words)''
            \<notin> set (fst (validateJsonStructureLegacy cats j))"
    unfolding legacy_errors [OF assms] set_append
    using tooShort_not_required tooShort_not_format tooShort_not_category
    by auto
  ultimately show ?thesis by blast
qed

theorem low_wordCount_is_error_witness:
  "metadata shortRecord =
     Some (exampleMetadata\<lparr>qualityMetrics :=
                             Some \<lparr>wordCount = Some 50, codeBlocks = Some 1\<rparr>\<rparr>)
   \<and> ''Content appears too short (< 100 words)''
       \<in> set (fst (validateJsonStructure examplePlatform exampleCategories shortRecord))
   \<and> ''Content appears too short (< 100 words)''
       \<notin> set (fst (validateJsonStructure examplePlatform exampleCategories exampleRecord))"
proof -
  have m: "metadata shortRecord =
             Some (exampleMetadata\<lparr>qualityMetrics :=
                                     Some \<lparr>wordCount = Some 50, codeBlocks = Some 1\<rparr>\<rparr>)"
    by (simp add: shortRecord_def exampleRecord_def)
  have e: "metadata exampleRecord = Some exampleMetadata"
    by (simp add: exampleRecord_def)
  show ?thesis
    using m low_wordCount_is_error [OF m, of examplePlatform exampleCategories]
      low_wordCount_is_error [OF e, of examplePlatform exampleCategories]
    by (simp add: exampleMetadata_def)
qed

section \<open>Long titles\<close>

lemma truncateTitle_default: "truncateTitle P t None = Inr t"
  by (simp add: truncateTitle_def)

lemma fieldTruthy_title:
  "truthyS (title m) \<Longrightarrow> t \<noteq> [] \<Longrightarrow> fieldTruthy (m\<lparr>title := Some t\<rparr>) f = fieldTruthy m f"
  by (simp add: fieldTruthy_def truthyS_def)

lemma fixed_title:
  "snd (fixUniqueId (snd (autoFixCategories cats (m\<lparr>title := x\<rparr>)))) =
     (snd (fixUniqueId (snd (autoFixCategories cats m))))\<lparr>title := x\<rparr>"
  by (simp add: fixed_fields)

lemma fixed_title_same: "title (snd (fixUniqueId (snd (autoFixCategories cats m)))) = title m"
  by (simp add: fixed_fields)

lemma autoFix_notes_title:
  "fst (autoFixCategories cats (m\<lparr>title := x\<rparr>)) = fst (autoFixCategories cats m)"
  by (simp add: autoFixCategories_def Let_def split: prod.splits)

lemma autoFix_snd_title:
  "snd (autoFixCategories cats (m\<lparr>title := x\<rparr>)) = (snd (autoFixCategories cats m))\<lparr>title := x\<rparr>"
  by (simp add: autoFixCategories_record)

lemma fixUniqueId_notes_title:
  "fst (fixUniqueId (m\<lparr>title := x\<rparr>)) = fst (fixUniqueId m)"
  by (simp add: fixUniqueId_def Let_def)

lemma requiredFieldErrors_title:
  "truthyS (title m) \<Longrightarrow> t \<noteq> [] \<Longrightarrow>
   requiredFieldErrors (m\<lparr>title := Some t\<rparr>) = requiredFieldErrors m"
  by (simp add: requiredFieldErrors_def fieldTruthy_title)

lemma formatErrors_title: "formatErrors (m\<lparr>title := x\<rparr>) = formatErrors m"
  by (simp add: formatErrors_def)

lemma categoryErrors_title: "categoryErrors cats (m\<lparr>title := x\<rparr>) = categoryErrors cats m"
  by (simp add: categoryErrors_def Let_def cong: if_cong option.case_cong)

lemma qualityErrors_title: "qualityErrors (m\<lparr>title := x\<rparr>) = qualityErrors m"
  by (simp add: qualityErrors_def)

lemma qualityNotes_title: "qualityNotes P (m\<lparr>title := x\<rparr>) = qualityNotes P m"
  by (simp add: qualityNotes_def)

lemma validate_title_independent:
  assumes "metadata j = Some m" "truthyS (title m)" "t \<noteq> []"
  shows "fst (validateJsonStructure P cats (j\<lparr>metadata := Some (m\<lparr>title := Some t\<rparr>)\<rparr>)) =
           fst (validateJsonStructure P cats j)"
    and "fst (snd (validateJsonStructure P cats (j\<lparr>metadata := Some (m\<lparr>title := Some t\<rparr>)\<rparr>))) =
           fst (snd (validateJsonStructure P cats j))"
proof -
  have m': "metadata (j\<lparr>metadata := Some (m\<lparr>title := Some t\<rparr>)\<rparr>) = Some (m\<lparr>title := Some t\<rparr>)"
    by simp
  have tr: "truthyS (title (snd (fixUniqueId (snd (autoFixCategories cats m)))))"
    using assms(2) by (simp add: fixed_title_same)
  show "fst (validateJsonStructure P cats (j\<lparr>metadata := Some (m\<lparr>title := Some t\<rparr>)\<rparr>)) =
           fst (validateJsonStructure P cats j)"
    unfolding validate_errors [OF m'] validate_errors [OF assms(1)] fixed_title
    using tr assms(3)
    by (simp add: requiredFieldErrors_title formatErrors_title categoryErrors_title
        qualityErrors_title)
  show "fst (snd (validateJsonStructure P cats (j\<lparr>metadata := Some (m\<lparr>title := Some t\<rparr>)\<rparr>))) =
           fst (snd (validateJsonStructure P cats j))"
    unfolding validate_notes [OF m'] validate_notes [OF assms(1)] fixed_title
    by (simp add: autoFix_notes_title autoFix_snd_title fixUniqueId_notes_title
        qualityNotes_title)
qed

lemma requiredFieldErrors_empty:
  "requiredFieldErrors m = [] \<Longrightarrow> f \<in> set requiredFields \<Longrightarrow> fieldTruthy m f"
  by (auto simp: requiredFieldErrors_def filter_empty_conv)

lemma valid_has_fields:
  assumes "metadata j = Some m" "fst (validateJsonStructure P cats j) = []"
  shows "truthyS (content j) \<and> truthyS (title m) \<and> truthyS (slug m) \<and> truthyS (description m)"
proof -
  let ?m = "snd (fixUniqueId (snd (autoFixCategories cats m)))"
  from assms(2) have c: "truthyS (content j)" and r: "requiredFieldErrors ?m = []"
    unfolding validate_errors [OF assms(1)] by (auto split: if_splits)
  have "fieldTruthy ?m ''title''" "fieldTruthy ?m ''slug''" "fieldTruthy ?m ''description''"
    using requiredFieldErrors_empty [OF r] by (simp_all add: requiredFields_def)
  then show ?thesis
    using c by (simp add: fieldTruthy_def fixed_fields)
qed

lemma convert_succeeds:
  assumes "content j = Some c" "metadata j = Some m" "title m = Some t" "slug m = Some s"
    "description m = Some d"
  shows "\<exists>r. convertJsonToMdx P j = Inr r \<and> title (resultMeta r) = Some t
            \<and> slug (resultMeta r) = Some (normalizeSlug s)
            \<and> prefix (''---'' @ [newline] @ ''title: '' @ [dquote] @ escapeQuotes t @
                        [dquote, newline]) (mdxContent r)"
  using assms
  by (simp add: convertJsonToMdx_def generateMdxFrontmatter_def truncateTitle_def Let_def)

lemma example_valid:
  "validateJsonStructure examplePlatform exampleCategories exampleRecord = ([], [], exampleRecord)"
  by (simp add: validateJsonStructure_def exampleRecord_def exampleMetadata_def
      examplePlatform_def exampleCategories_def truthyO_def truthyS_def truthyV_def truthyN_def
      autoFixCategories_def fixUniqueId_def mapCategory_def mapSubcategory_def
      categoryExists_def objLookup_def categoryMappings_def objectPrototypeKeys_def
      requiredFieldErrors_def requiredFields_def fieldTruthy_def formatErrors_def isHex8_def
      categoryErrors_def qualityErrors_def qualityNotes_def)

lemma length_longTitle: "length longTitle = 167"
  by (simp add: longTitle_def)

text \<open>
  C6, as stated: a valid record with a title of more than 60 characters passes validation
  with exactly one advisory warning about SERP display. \<open>validateJsonStructure\<close> has no
  check of the title length: for the documented record with the title of 167 characters it
  returns no error and prints no line at all.
\<close>

theorem long_title_one_warning_counterexample:
  "60 < length longTitle
   \<and> validateJsonStructure examplePlatform exampleCategories longTitleRecord
       = ([], [], longTitleRecord)"
  by (simp add: length_longTitle)
     (simp add: validateJsonStructure_def longTitleRecord_def exampleRecord_def
      exampleMetadata_def examplePlatform_def exampleCategories_def truthyO_def truthyS_def
      truthyV_def truthyN_def autoFixCategories_def fixUniqueId_def mapCategory_def
      mapSubcategory_def categoryExists_def objLookup_def categoryMappings_def
      objectPrototypeKeys_def requiredFieldErrors_def requiredFields_def fieldTruthy_def
      formatErrors_def isHex8_def categoryErrors_def qualityErrors_def qualityNotes_def
      longTitle_def)

text \<open>
  C6, amended: long titles are accepted silently. Replacing the title of a valid record by
  any title of more than 60 characters leaves it valid, with the same printed lines as
  before (\<open>validateJsonStructure\<close> prints nothing about the title); \<open>truncateTitle\<close> with the
  default argument returns its input; and the composed document carries the full title in
  its metadata and, with its double quotes escaped, in the title line of the header.
\<close>

theorem long_title_accepted_unchanged:
  assumes "metadata j = Some m" and "fst (validateJsonStructure P cats j) = []"
    and "60 < length t"
  shows "fst (validateJsonStructure P cats (j\<lparr>metadata := Some (m\<lparr>title := Some t\<rparr>)\<rparr>)) = []
     \<and> fst (snd (validateJsonStructure P cats (j\<lparr>metadata := Some (m\<lparr>title := Some t\<rparr>)\<rparr>)))
         = fst (snd (validateJsonStructure P cats j))
     \<and> truncateTitle P (Some t) None = Inr (Some t)
     \<and> (\<exists>r. convertJsonToMdx P
               (snd (snd (validateJsonStructure P cats
                            (j\<lparr>metadata := Some (m\<lparr>title := Some t\<rparr>)\<rparr>)))) = Inr r
            \<and> title (resultMeta r) = Some t
            \<and> prefix (''---'' @ [newline] @ ''title: '' @ [dquote] @ escapeQuotes t @
                        [dquote, newline]) (mdxContent r))"
proof -
  let ?j = "j\<lparr>metadata := Some (m\<lparr>title := Some t\<rparr>)\<rparr>"
  let ?m = "snd (fixUniqueId (snd (autoFixCategories cats (m\<lparr>title := Some t\<rparr>))))"
  have t: "t \<noteq> []" using assms(3) by auto
  have tr: "truthyS (title m)"
    using valid_has_fields [OF assms(1,2)] by simp
  have e: "fst (validateJsonStructure P cats ?j) = []"
    using validate_title_independent(1) [OF assms(1) tr t, of P cats] assms(2) by simp
  have n: "fst (snd (validateJsonStructure P cats ?j)) = fst (snd (validateJsonStructure P cats j))"
    by (rule validate_title_independent(2) [OF assms(1) tr t])
  have mj: "metadata ?j = Some (m\<lparr>title := Some t\<rparr>)" by simp
  from valid_has_fields [OF mj e]
  obtain c s d where c: "content j = Some c" and s: "slug m = Some s"
    and d: "description m = Some d"
    by (auto simp: truthyS_def split: option.splits)
  have left: "snd (snd (validateJsonStructure P cats ?j)) = ?j\<lparr>metadata := Some ?m\<rparr>"
    by (simp add: validate_record)
  have "\<exists>r. convertJsonToMdx P (?j\<lparr>metadata := Some ?m\<rparr>) = Inr r
            \<and> title (resultMeta r) = Some t
            \<and> slug (resultMeta r) = Some (normalizeSlug s)
            \<and> prefix (''---'' @ [newline] @ ''title: '' @ [dquote] @ escapeQuotes t @
                        [dquote, newline]) (mdxContent r)"
    by (rule convert_succeeds [where c = c and m = ?m and d = d])
       (simp_all add: c s d fixed_fields)
  with e n left show ?thesis
    by (auto simp: truncateTitle_default)
qed

theorem long_title_accepted_unchanged_witness:
  "metadata exampleRecord = Some exampleMetadata
   \<and> fst (validateJsonStructure examplePlatform exampleCategories exampleRecord) = []
   \<and> 60 < length longTitle
   \<and> fst (validateJsonStructure examplePlatform exampleCategories longTitleRecord) = []
   \<and> truncateTitle examplePlatform (Some longTitle) None = Inr (Some longTitle)"
proof -
  have a: "metadata exampleRecord = Some exampleMetadata"
    by (simp add: exampleRecord_def)
  have b: "fst (validateJsonStructure examplePlatform exampleCategories exampleRecord) = []"
    by (simp add: example_valid)
  have c: "60 < length longTitle"
    by (simp add: length_longTitle)
  show ?thesis
    using a b c long_title_accepted_unchanged [OF a b c]
    by (simp add: longTitleRecord_def)
qed

section \<open>Properties of the document composer\<close>

lemma formatISODate_parsed:
  "parseDate P s = Some d \<Longrightarrow> formatISODate P (Some s) = d"
  by (simp add: formatISODate_def)

lemma frontmatter_clock:
  assumes "orElse (generatedAt m) (publishedAt m) = Some s" "parseDate P s = Some d"
  shows "generateMdxFrontmatter (P\<lparr>now := x, later := y\<rparr>) m = generateMdxFrontmatter P m"
proof -
  have "formatISODate (P\<lparr>now := x, later := y\<rparr>) (Some s) = formatISODate P (Some s)"
    using assms(2) by (simp add: formatISODate_parsed)
  then show ?thesis
    by (simp add: generateMdxFrontmatter_def truncateTitle_def assms(1) Let_def
        split: option.splits)
qed

lemma convert_clock:
  assumes "metadata j = Some m" "orElse (generatedAt m) (publishedAt m) = Some s"
    "parseDate P s \<noteq> None"
  shows "convertJsonToMdx (P\<lparr>now := x, later := y\<rparr>) j = convertJsonToMdx P j"
proof -
  from assms(3) obtain d where d: "parseDate P s = Some d" by blast
  have f: "generateMdxFrontmatter (P\<lparr>now := x, later := y\<rparr>) (m\<lparr>title := a, slug := b\<rparr>) =
           generateMdxFrontmatter P (m\<lparr>title := a, slug := b\<rparr>)" for a b
    by (rule frontmatter_clock [where s = s and d = d]) (simp_all add: assms d)
  have g: "generateMdxFrontmatter (P\<lparr>now := x, later := y\<rparr>) (m\<lparr>slug := b\<rparr>) =
           generateMdxFrontmatter P (m\<lparr>slug := b\<rparr>)" for b
    by (rule frontmatter_clock [where s = s and d = d]) (simp_all add: assms d)
  have h: "formatISODate Q (Some s) = d" if "parseDate Q = parseDate P" for Q
    using d that by (simp add: formatISODate_def)
  show ?thesis
    by (simp add: convertJsonToMdx_def assms(1,2) f g h truncateTitle_def Let_def
        split: option.splits sum.splits)
qed

lemma convert_Inr:
  assumes "convertJsonToMdx P j = Inr r"
  obtains c m t s d where "content j = Some c" "metadata j = Some m" "title m = Some t"
    "slug m = Some s" "description m = Some d"
  using assms
  by (auto simp: convertJsonToMdx_def generateMdxFrontmatter_def truncateTitle_def Let_def
      split: option.splits sum.splits)

lemma convert_undated:
  assumes "convertJsonToMdx P j = Inr r" "metadata j = Some m"
    "orElse (generatedAt m) (publishedAt m) = None \<or>
     (orElse (generatedAt m) (publishedAt m) = Some u \<and> parseDate P u = None)"
  shows "resultLastUpdated r = later P"
  using assms
  by (auto simp: convertJsonToMdx_def formatISODate_def Let_def truncateTitle_def
      split: option.splits sum.splits)

lemma frontmatter_undated:
  assumes "generateMdxFrontmatter P m = Inr f"
    "orElse (generatedAt m) (publishedAt m) = None \<or>
     (orElse (generatedAt m) (publishedAt m) = Some u \<and> parseDate P u = None)"
  shows "\<exists>pre post. f = pre @ ''lastUpdated: '' @ [dquote] @ now P @ [dquote] @ post"
proof -
  have d: "formatISODate P (orElse (generatedAt m) (publishedAt m)) = now P"
    using assms(2) by (auto simp: formatISODate_def)
  from assms(1) obtain t s e where
    "f = (''---'' @ [newline] @
          ''title: '' @ [dquote] @ escapeQuotes t @ [dquote, newline] @
          ''slug: '' @ [dquote] @ normalizeSlug s @ [dquote, newline] @
          ''category: '' @ [dquote] @ showV (category m) @ [dquote, newline] @
          ''subcategory: '' @ [dquote] @ showS (subcategory m) @ [dquote, newline] @
          ''description: '' @ [dquote] @ escapeQuotes e @ [dquote, newline] @
          ''tags: '' @ stringifyTags (tags m) @ [newline] @
          ''difficulty: '' @ [dquote] @ showS (difficulty m) @ [dquote, newline] @
          ''readTime: '' @ showN (readTime m) @ [newline]) @
         ''lastUpdated: '' @ [dquote] @ now P @ [dquote] @
         ([newline] @ ''featured: '' @ showBool (featuredOrFalse (featured m)) @ [newline] @
          ''---'' @ [newline, newline])"
    unfolding generateMdxFrontmatter_def Let_def d
    by (auto simp: truncateTitle_def split: option.splits sum.splits)
  then show ?thesis by blast
qed

lemma convert_header_undated:
  assumes "convertJsonToMdx P j = Inr r" "metadata j = Some m"
    "orElse (generatedAt m) (publishedAt m) = None \<or>
     (orElse (generatedAt m) (publishedAt m) = Some u \<and> parseDate P u = None)"
  shows "\<exists>pre post. mdxContent r = pre @ ''lastUpdated: '' @ [dquote] @ now P @ [dquote] @ post"
proof -
  from assms(1) obtain c m0 t s e where k: "content j = Some c" "metadata j = Some m0"
    "title m0 = Some t" "slug m0 = Some s" "description m0 = Some e"
    by (rule convert_Inr)
  from k(2) assms(2) have m0: "m0 = m" by simp
  from assms(1) k obtain f where
    f: "generateMdxFrontmatter P (m\<lparr>title := Some t, slug := Some (normalizeSlug s)\<rparr>) = Inr f"
    and c: "mdxContent r = f @ processImagePlaceholders (processCodeBlocks c)"
    unfolding m0
    by (auto simp: convertJsonToMdx_def truncateTitle_def Let_def split: sum.splits)
  have "\<exists>pre post. f = pre @ ''lastUpdated: '' @ [dquote] @ now P @ [dquote] @ post"
    by (rule frontmatter_undated [OF f, where u = u]) (use assms(3) in simp)
  then obtain pre post where "f = pre @ ''lastUpdated: '' @ [dquote] @ now P @ [dquote] @ post"
    by blast
  then have "mdxContent r = pre @ ''lastUpdated: '' @ [dquote] @ now P @ [dquote] @
               (post @ processImagePlaceholders (processCodeBlocks c))"
    using c by simp
  then show ?thesis by blast
qed

lemma convert_repeat:
  assumes "convertJsonToMdx P j = Inr r"
  shows "convertJsonToMdx P (leftRecord r) = Inr r"
proof -
  from assms obtain c m t s d where f: "content j = Some c" "metadata j = Some m"
    "title m = Some t" "slug m = Some s" "description m = Some d"
    by (rule convert_Inr)
  from assms f show ?thesis
    by (auto simp: convertJsonToMdx_def generateMdxFrontmatter_def truncateTitle_def Let_def
        normalizeSlug_idem)
qed

lemma convert_body:
  assumes "convertJsonToMdx P j = Inr r" "content j = Some c"
  shows "suffix (processImagePlaceholders (processCodeBlocks c)) (mdxContent r)"
  using assms
  by (auto simp: convertJsonToMdx_def Let_def suffix_def split: option.splits sum.splits)

lemma replaceAll_skip:
  assumes "\<And>u. u \<noteq> [] \<Longrightarrow> suffix u x \<Longrightarrow> m (u @ rest) = None"
  shows "replaceAll m (x @ rest) = x @ replaceAll m rest"
  using assms
proof (induction x)
  case Nil
  show ?case by simp
next
  case (Cons c cs)
  have "m ((c # cs) @ rest) = None" by (rule Cons.prems) simp_all
  then have "m (c # cs @ rest) = None" by simp
  moreover have "replaceAll m (cs @ rest) = cs @ replaceAll m rest"
    by (rule Cons.IH) (simp add: Cons.prems suffix_ConsI)
  ultimately show ?case by simp
qed

lemma replaceAll_hit:
  assumes "m (c # cs) = Some (out, rest)" "length rest \<le> length cs"
  shows "replaceAll m (c # cs) = out @ replaceAll m rest"
  using assms by simp

lemma hasImageStart_Cons:
  "hasImageStart (c # xs) =
     ((c = CHR ''!'' \<and> xs \<noteq> [] \<and> hd xs = CHR ''['') \<or> hasImageStart xs)"
  by (cases xs) auto

lemma hasImageStart_append:
  "hasImageStart (xs @ ys) =
     (hasImageStart xs \<or> hasImageStart ys \<or>
      (xs \<noteq> [] \<and> ys \<noteq> [] \<and> last xs = CHR ''!'' \<and> hd ys = CHR ''[''))"
proof (induction xs rule: hasImageStart.induct)
  case (1 a b cs)
  then show ?case by auto
next
  case (2 a)
  show ?case by (cases ys) auto
next
  case 3
  show ?case by simp
qed

lemma hasImageStart_suffix:
  assumes "suffix u s" "prefix ''!['' u"
  shows "hasImageStart s"
proof -
  from assms obtain v w where "s = v @ u" "u = ''!['' @ w"
    by (auto simp: suffix_def prefix_def)
  then show ?thesis by (simp add: hasImageStart_append)
qed

lemma no_image_start:
  assumes "\<not> hasImageStart z"
    and "\<not> (z \<noteq> [] \<and> last z = CHR ''!'' \<and> prefix ''['' rest)"
    and "suffix u z" and "u \<noteq> []"
  shows "\<not> prefix ''!['' (u @ rest)"
proof
  assume p: "prefix ''!['' (u @ rest)"
  show False
  proof (cases u)
    case Nil
    with assms(4) show False by simp
  next
    case (Cons c u1)
    note uc = Cons
    show False
    proof (cases u1)
      case Nil
      with uc p have "c = CHR ''!''" "prefix ''['' rest" by simp_all
      moreover from assms(3) uc Nil have "z \<noteq> [] \<and> last z = c"
        by (auto simp: suffix_def)
      ultimately show False using assms(2) by simp
    next
      case (Cons d u2)
      with uc p have "prefix ''!['' u" by simp
      with assms(3) have "hasImageStart z" by (rule hasImageStart_suffix)
      with assms(1) show False by simp
    qed
  qed
qed

lemma matchImage_needs_start:
  "\<not> prefix ''!['' s \<Longrightarrow> matchImageReplace s = None"
  by (simp add: matchImageReplace_def matchImage_def)

lemma plain_kept:
  assumes "\<not> hasImageStart t"
    and "\<not> (t \<noteq> [] \<and> last t = CHR ''!'' \<and> prefix ''['' rest)"
  shows "processImagePlaceholders (t @ rest) = t @ processImagePlaceholders rest"
  unfolding processImagePlaceholders_def
proof (rule replaceAll_skip)
  fix u assume "u \<noteq> []" "suffix u t"
  then have "\<not> prefix ''!['' (u @ rest)"
    using no_image_start [OF assms] by blast
  then show "matchImageReplace (u @ rest) = None" by (rule matchImage_needs_start)
qed

lemma prefix_bang_bracket:
  assumes "prefix ''!['' (u @ CHR '']'' # w)"
  shows "\<exists>u'. u = ''!['' @ u'"
proof (cases u)
  case Nil
  with assms show ?thesis by simp
next
  case (Cons a u1)
  show ?thesis
  proof (cases u1)
    case Nil
    with Cons assms show ?thesis by simp
  next
    case (Cons b u2)
    with \<open>u = a # u1\<close> assms show ?thesis by simp
  qed
qed

lemma matchImage_placeholder:
  assumes "CHR '']'' \<notin> set u"
  shows "matchImage (u @ '']('' @ ''PLACEHOLDER:'' @ w) = None"
proof (cases "prefix ''!['' (u @ '']('' @ ''PLACEHOLDER:'' @ w)")
  case False
  then show ?thesis unfolding matchImage_def by (simp only: if_False)
next
  case True
  then obtain u' where u: "u = ''!['' @ u'"
    using prefix_bang_bracket [of u "''('' @ ''PLACEHOLDER:'' @ w"] by auto
  have nb: "\<And>x. x \<in> set u' \<Longrightarrow> x \<noteq> CHR '']''" using assms u by auto
  have t: "takeWhile (\<lambda>c. c \<noteq> CHR '']'') (u' @ '']('' @ ''PLACEHOLDER:'' @ w) = u'"
    using nb by (simp add: takeWhile_append2)
  have d: "dropWhile (\<lambda>c. c \<noteq> CHR '']'') (u' @ '']('' @ ''PLACEHOLDER:'' @ w)
             = '']('' @ ''PLACEHOLDER:'' @ w"
    using nb by (simp add: dropWhile_append2)
  have dr: "drop 2 (u @ '']('' @ ''PLACEHOLDER:'' @ w) = u' @ '']('' @ ''PLACEHOLDER:'' @ w"
    by (simp add: u)
  show ?thesis
    unfolding matchImage_def Let_def dr t d by simp
qed

lemma placeholder_kept:
  assumes "CHR '']'' \<notin> set alt" "\<not> hasImageStart alt" "\<not> hasImageStart target"
  shows "processImagePlaceholders (placeholderFor alt target @ rest) =
           placeholderFor alt target @ processImagePlaceholders rest"
  unfolding processImagePlaceholders_def
proof (rule replaceAll_skip)
  fix u assume u: "u \<noteq> []" "suffix u (placeholderFor alt target)"
  define z where "z = ''['' @ alt @ ''](PLACEHOLDER: '' @ alt @ '' - '' @ target @ '')''"
  have p: "placeholderFor alt target = CHR ''!'' # z"
    by (simp add: placeholderFor_def z_def)
  from u(2) consider (whole) "u = placeholderFor alt target" | (inner) "suffix u z"
    unfolding p suffix_Cons by blast
  then show "matchImageReplace (u @ rest) = None"
  proof cases
    case whole
    have "matchImage ((''!['' @ alt) @ '']('' @ ''PLACEHOLDER:'' @
                       ('' '' @ alt @ '' - '' @ target @ '')'' @ rest)) = None"
      by (rule matchImage_placeholder) (use assms(1) in simp)
    then show ?thesis by (simp add: whole placeholderFor_def matchImageReplace_def)
  next
    case inner
    have n: "\<not> hasImageStart z"
      using assms(2,3) by (simp add: z_def hasImageStart_append hasImageStart_Cons)
    have l: "\<not> (z \<noteq> [] \<and> last z = CHR ''!'' \<and> prefix ''['' rest)"
      by (simp add: z_def)
    have "\<not> prefix ''!['' (u @ rest)" by (rule no_image_start [OF n l inner u(1)])
    then show ?thesis by (rule matchImage_needs_start)
  qed
qed

lemma not_prefix_placeholder:
  assumes "\<not> prefix ''PLACEHOLDER:'' target"
  shows "\<not> prefix ''PLACEHOLDER:'' (target @ CHR '')'' # rest)"
proof
  assume "prefix ''PLACEHOLDER:'' (target @ CHR '')'' # rest)"
  then obtain us where us: "''PLACEHOLDER:'' = target @ us" "prefix us (CHR '')'' # rest)"
    using assms unfolding prefix_append by blast
  show False
  proof (cases us)
    case Nil
    with us(1) assms show False by simp
  next
    case (Cons c vs)
    with us(2) have "c = CHR '')''" by simp
    with Cons have "CHR '')'' \<in> set (target @ us)" by simp
    then have "CHR '')'' \<in> set ''PLACEHOLDER:''" by (simp only: us(1) [symmetric])
    then show False by simp
  qed
qed

lemma matchImage_reference:
  assumes "alt \<noteq> []" "CHR '']'' \<notin> set alt" "target \<noteq> []" "CHR '')'' \<notin> set target"
    "\<not> prefix ''PLACEHOLDER:'' target"
  shows "matchImage (''!['' @ alt @ '']('' @ target @ '')'' @ rest) = Some (alt, target, rest)"
proof -
  have nb: "\<And>x. x \<in> set alt \<Longrightarrow> x \<noteq> CHR '']''" using assms(2) by auto
  have np: "\<And>x. x \<in> set target \<Longrightarrow> x \<noteq> CHR '')''" using assms(4) by auto
  have dr: "drop 2 (''!['' @ alt @ '']('' @ target @ '')'' @ rest) =
              alt @ '']('' @ target @ '')'' @ rest"
    by simp
  have t1: "takeWhile (\<lambda>c. c \<noteq> CHR '']'') (alt @ '']('' @ target @ '')'' @ rest) = alt"
    using nb by (simp add: takeWhile_append2)
  have d1: "dropWhile (\<lambda>c. c \<noteq> CHR '']'') (alt @ '']('' @ target @ '')'' @ rest) =
              '']('' @ target @ '')'' @ rest"
    using nb by (simp add: dropWhile_append2)
  have dr2: "drop 2 ('']('' @ target @ '')'' @ rest) = target @ '')'' @ rest"
    by simp
  have t2: "takeWhile (\<lambda>c. c \<noteq> CHR '')'') (target @ '')'' @ rest) = target"
    using np by (simp add: takeWhile_append2)
  have d2: "dropWhile (\<lambda>c. c \<noteq> CHR '')'') (target @ '')'' @ rest) = '')'' @ rest"
    using np by (simp add: dropWhile_append2)
  show ?thesis
    unfolding matchImage_def Let_def dr t1 d1 dr2 t2 d2
    using not_prefix_placeholder [OF assms(5), of rest] assms(1,3) by simp
qed

lemma image_wrapped:
  assumes "alt \<noteq> []" "CHR '']'' \<notin> set alt" "target \<noteq> []" "CHR '')'' \<notin> set target"
    "\<not> prefix ''PLACEHOLDER:'' target"
  shows "processImagePlaceholders (''!['' @ alt @ '']('' @ target @ '')'' @ rest) =
           placeholderFor alt target @ processImagePlaceholders rest"
proof -
  have "matchImageReplace (CHR ''!'' # (CHR ''['' # alt @ '']('' @ target @ '')'' @ rest)) =
          Some (placeholderFor alt target, rest)"
    using matchImage_reference [OF assms, of rest] by (simp add: matchImageReplace_def)
  moreover have "length rest \<le> length (CHR ''['' # alt @ '']('' @ target @ '')'' @ rest)"
    by simp
  ultimately have "replaceAll matchImageReplace
                     (CHR ''!'' # (CHR ''['' # alt @ '']('' @ target @ '')'' @ rest)) =
                   placeholderFor alt target @ replaceAll matchImageReplace rest"
    by (rule replaceAll_hit)
  then show ?thesis by (simp add: processImagePlaceholders_def)
qed

lemma body_rewritten:
  "wellFormedBody ps \<Longrightarrow>
   processImagePlaceholders (renderBody ps) = renderBody (map wrapPart ps)"
proof (induction ps rule: wellFormedBody.induct)
  case 1
  show ?case by (simp add: renderBody_def processImagePlaceholders_def)
next
  case (2 t rest)
  then have "processImagePlaceholders (t @ renderBody rest) =
               t @ processImagePlaceholders (renderBody rest)"
    by (intro plain_kept) simp_all
  with 2 show ?case by (simp add: renderBody_def)
next
  case (3 alt target rest)
  then have "processImagePlaceholders (''!['' @ alt @ '']('' @ target @ '')'' @ renderBody rest) =
               placeholderFor alt target @ processImagePlaceholders (renderBody rest)"
    by (intro image_wrapped) simp_all
  with 3 show ?case by (simp add: renderBody_def)
next
  case (4 alt target rest)
  then have "processImagePlaceholders (placeholderFor alt target @ renderBody rest) =
               placeholderFor alt target @ processImagePlaceholders (renderBody rest)"
    by (intro placeholder_kept) simp_all
  with 4 show ?case by (simp add: renderBody_def)
qed

lemma wrapPart_twice: "map wrapPart (map wrapPart ps) = map wrapPart ps"
proof -
  have "wrapPart (wrapPart p) = wrapPart p" for p by (cases p) simp_all
  then show ?thesis by simp
qed

lemma body_stable:
  assumes "wellFormedBody (map wrapPart ps)"
  shows "processImagePlaceholders (renderBody (map wrapPart ps)) = renderBody (map wrapPart ps)"
  using body_rewritten [OF assms] by (simp only: wrapPart_twice)

text \<open>
  C5, as stated: composing twice from the same inputs gives byte-identical output for all
  records, also for those that supply no \<open>generatedAt\<close> or \<open>publishedAt\<close>, and a reference in
  placeholder form is never wrapped again. For an undated record \<open>lastUpdated\<close> is the clock
  reading of the run: two runs five seconds apart write different files. And a placeholder
  whose alt text has \<open>![\<close> in it, followed by \<open>](c)\<close>, is wrapped again from inside.
\<close>

theorem convertJsonToMdx_repeatable_counterexample:
  "map_sum id mdxContent (convertJsonToMdx examplePlatform noDateRecord) \<noteq>
   map_sum id mdxContent
     (convertJsonToMdx (examplePlatform\<lparr>now := ''2025-10-01T08:00:05.000Z''\<rparr>) noDateRecord)
   \<and> processImagePlaceholders (placeholderFor ''![a'' ''b'' @ ''](c)'') \<noteq>
       placeholderFor ''![a'' ''b'' @ ''](c)''"
proof (rule conjI)
  show "map_sum id mdxContent (convertJsonToMdx examplePlatform noDateRecord) \<noteq>
        map_sum id mdxContent
          (convertJsonToMdx (examplePlatform\<lparr>now := ''2025-10-01T08:00:05.000Z''\<rparr>)
             noDateRecord)"
    by code_simp
  show "processImagePlaceholders (placeholderFor ''![a'' ''b'' @ ''](c)'') \<noteq>
          placeholderFor ''![a'' ''b'' @ ''](c)''"
    by code_simp
qed

text \<open>
  C5, amended: composition is repeatable up to the clock. When \<open>convertJsonToMdx\<close> accepts a
  record, running it again on that record as the first run left it, with the same clock
  readings, gives the identical result. When the record has a \<open>generatedAt\<close> date (or,
  failing that, a \<open>publishedAt\<close> date) that parses, the result does not depend on the clock
  at all. When it has no such date, or one that does not parse, the header's \<open>lastUpdated\<close>
  line carries the clock reading taken for the header and the returned \<open>lastUpdated\<close> the
  reading taken afterwards. The file ends in the rewritten body. In a body made of text
  without \<open>![\<close>, standard references and placeholders (alt text without \<open>]\<close>, no \<open>![\<close> inside),
  every standard reference \<open>![alt](target)\<close> becomes \<open>![alt](PLACEHOLDER: alt - target)\<close>, the
  text and the placeholders stay as they are, and, where the new placeholders have no \<open>![\<close>
  inside either, rewriting the result again changes nothing.
\<close>

theorem convertJsonToMdx_repeatable:
  assumes "convertJsonToMdx P j = Inr r"
  shows "convertJsonToMdx P (leftRecord r) = Inr r
     \<and> (metadata j = Some m \<and> orElse (generatedAt m) (publishedAt m) = Some s \<and>
        parseDate P s \<noteq> None \<longrightarrow> convertJsonToMdx (P\<lparr>now := x, later := y\<rparr>) j = Inr r)
     \<and> (metadata j = Some m \<and>
        (orElse (generatedAt m) (publishedAt m) = None \<or>
         (orElse (generatedAt m) (publishedAt m) = Some u \<and> parseDate P u = None)) \<longrightarrow>
        resultLastUpdated r = later P \<and>
        (\<exists>pre post. mdxContent r =
           pre @ ''lastUpdated: '' @ [dquote] @ now P @ [dquote] @ post))
     \<and> (content j = Some c \<longrightarrow>
        suffix (processImagePlaceholders (processCodeBlocks c)) (mdxContent r))
     \<and> (wellFormedBody ps \<longrightarrow>
        processImagePlaceholders (renderBody ps) = renderBody (map wrapPart ps))
     \<and> (wellFormedBody ps \<and> wellFormedBody (map wrapPart ps) \<longrightarrow>
        processImagePlaceholders (processImagePlaceholders (renderBody ps)) =
          processImagePlaceholders (renderBody ps))"
proof -
  have a: "metadata j = Some m \<and> orElse (generatedAt m) (publishedAt m) = Some s \<and>
           parseDate P s \<noteq> None \<longrightarrow> convertJsonToMdx (P\<lparr>now := x, later := y\<rparr>) j = Inr r"
    using convert_clock [where j = j and m = m and s = s and P = P and x = x and y = y] assms
    by auto
  have b: "metadata j = Some m \<and>
           (orElse (generatedAt m) (publishedAt m) = None \<or>
            (orElse (generatedAt m) (publishedAt m) = Some u \<and> parseDate P u = None)) \<longrightarrow>
           resultLastUpdated r = later P \<and>
           (\<exists>pre post. mdxContent r =
              pre @ ''lastUpdated: '' @ [dquote] @ now P @ [dquote] @ post)"
    using convert_undated [OF assms, of m u] convert_header_undated [OF assms, of m u]
    by blast
  have c: "content j = Some c \<longrightarrow>
           suffix (processImagePlaceholders (processCodeBlocks c)) (mdxContent r)"
    using convert_body [OF assms] by blast
  have d: "wellFormedBody ps \<longrightarrow>
           processImagePlaceholders (renderBody ps) = renderBody (map wrapPart ps)"
    using body_rewritten by blast
  have e: "wellFormedBody ps \<and> wellFormedBody (map wrapPart ps) \<longrightarrow>
           processImagePlaceholders (processImagePlaceholders (renderBody ps)) =
             processImagePlaceholders (renderBody ps)"
    using body_rewritten [of ps] body_stable [of ps] by auto
  from convert_repeat [OF assms] a b c d e show ?thesis by blast
qed

theorem convertJsonToMdx_repeatable_witness:
  "(\<exists>r. convertJsonToMdx examplePlatform exampleRecord = Inr r)
   \<and> convertJsonToMdx (examplePlatform\<lparr>now := ''2030-01-01T00:00:00.000Z'',
                                       later := ''2030-01-01T00:00:01.000Z''\<rparr>) exampleRecord =
       convertJsonToMdx examplePlatform exampleRecord
   \<and> (\<exists>r. convertJsonToMdx examplePlatform noDateRecord = Inr r
          \<and> resultLastUpdated r = ''2025-10-01T08:00:00.002Z''
          \<and> (\<exists>pre post. mdxContent r =
                pre @ ''lastUpdated: '' @ [dquote] @ ''2025-10-01T08:00:00.000Z'' @ [dquote] @
                post))
   \<and> wellFormedBody [Plain ''See '', Placeholder ''diagram'' ''img/a.png'', Plain '' and '',
                      Image ''chart'' ''img/b.png'', Plain ''!'']
   \<and> processImagePlaceholders
       ''See ![diagram](PLACEHOLDER: diagram - img/a.png) and ![chart](img/b.png)!'' =
       ''See ![diagram](PLACEHOLDER: diagram - img/a.png) and ![chart](PLACEHOLDER: chart - img/b.png)!''
   \<and> processImagePlaceholders
       ''See ![diagram](PLACEHOLDER: diagram - img/a.png) and ![chart](PLACEHOLDER: chart - img/b.png)!'' =
       ''See ![diagram](PLACEHOLDER: diagram - img/a.png) and ![chart](PLACEHOLDER: chart - img/b.png)!''"
proof -
  obtain r where r: "convertJsonToMdx examplePlatform exampleRecord = Inr r"
    using convert_succeeds [of exampleRecord "''# How to Parse JSON''" exampleMetadata
        "''How to Parse JSON in JavaScript''" "''how-to-parse-json-in-javascript''"
        "''Complete guide to JSON parsing in JavaScript with examples''" examplePlatform]
    by (auto simp: exampleRecord_def exampleMetadata_def)
  have d: "metadata exampleRecord = Some exampleMetadata
           \<and> orElse (generatedAt exampleMetadata) (publishedAt exampleMetadata)
               = Some ''2025-09-19T10:30:00.000Z''
           \<and> parseDate examplePlatform ''2025-09-19T10:30:00.000Z'' \<noteq> None"
    by (simp add: exampleRecord_def exampleMetadata_def examplePlatform_def orElse_def
        truthyS_def)
  obtain q where q: "convertJsonToMdx examplePlatform noDateRecord = Inr q"
    using convert_succeeds [of noDateRecord "''# How to Parse JSON''"
        "exampleMetadata\<lparr>publishedAt := None, generatedAt := None\<rparr>"
        "''How to Parse JSON in JavaScript''" "''how-to-parse-json-in-javascript''"
        "''Complete guide to JSON parsing in JavaScript with examples''" examplePlatform]
    by (auto simp: noDateRecord_def exampleRecord_def exampleMetadata_def)
  have n: "metadata noDateRecord =
             Some (exampleMetadata\<lparr>publishedAt := None, generatedAt := None\<rparr>)
           \<and> orElse (generatedAt (exampleMetadata\<lparr>publishedAt := None, generatedAt := None\<rparr>))
                (publishedAt (exampleMetadata\<lparr>publishedAt := None, generatedAt := None\<rparr>))
               = None"
    by (simp add: noDateRecord_def orElse_def truthyS_def)
  have t: "now examplePlatform = ''2025-10-01T08:00:00.000Z''"
          "later examplePlatform = ''2025-10-01T08:00:00.002Z''"
    by (simp_all add: examplePlatform_def)
  define ps where "ps = [Plain ''See '', Placeholder ''diagram'' ''img/a.png'', Plain '' and '',
                         Image ''chart'' ''img/b.png'', Plain ''!'']"
  have w: "wellFormedBody ps" "wellFormedBody (map wrapPart ps)"
    by (simp_all add: ps_def renderBody_def placeholderFor_def)
  have b: "renderBody ps =
             ''See ![diagram](PLACEHOLDER: diagram - img/a.png) and ![chart](img/b.png)!''"
          "renderBody (map wrapPart ps) =
             ''See ![diagram](PLACEHOLDER: diagram - img/a.png) and ![chart](PLACEHOLDER: chart - img/b.png)!''"
    by (simp_all add: ps_def renderBody_def placeholderFor_def)
  have first: "convertJsonToMdx (examplePlatform\<lparr>now := ''2030-01-01T00:00:00.000Z'',
                                   later := ''2030-01-01T00:00:01.000Z''\<rparr>) exampleRecord =
                 convertJsonToMdx examplePlatform exampleRecord"
    using r d
      convertJsonToMdx_repeatable [OF r, where m = exampleMetadata
        and s = "''2025-09-19T10:30:00.000Z''" and x = "''2030-01-01T00:00:00.000Z''"
        and y = "''2030-01-01T00:00:01.000Z''"]
    by simp
  note undated =
    convertJsonToMdx_repeatable [OF q,
      where m = "exampleMetadata\<lparr>publishedAt := None, generatedAt := None\<rparr>" and ps = ps]
  have s0: "resultLastUpdated q = later examplePlatform"
    using n undated by blast
  have s1: "\<exists>pre post. mdxContent q =
              pre @ ''lastUpdated: '' @ [dquote] @ now examplePlatform @ [dquote] @ post"
    using n undated by blast
  have s2: "processImagePlaceholders (renderBody ps) = renderBody (map wrapPart ps)"
    using w undated by blast
  have s3: "processImagePlaceholders (processImagePlaceholders (renderBody ps)) =
              processImagePlaceholders (renderBody ps)"
    using w undated by blast
  note second = s0 [unfolded t] s1 [unfolded t]
  note third = s2 [unfolded b] s3 [unfolded s2, unfolded b]
  have wf: "wellFormedBody [Plain ''See '', Placeholder ''diagram'' ''img/a.png'',
                            Plain '' and '', Image ''chart'' ''img/b.png'', Plain ''!'']"
    using w(1) unfolding ps_def .
  have e1: "\<exists>r. convertJsonToMdx examplePlatform exampleRecord = Inr r"
    using r by (rule exI)
  have e2: "\<exists>r. convertJsonToMdx examplePlatform noDateRecord = Inr r
              \<and> resultLastUpdated r = ''2025-10-01T08:00:00.002Z''
              \<and> (\<exists>pre post. mdxContent r =
                    pre @ ''lastUpdated: '' @ [dquote] @ ''2025-10-01T08:00:00.000Z'' @
                    [dquote] @ post)"
    by (intro exI [of _ q] conjI q second)
  show ?thesis
    by (intro conjI e1 first e2 wf third)
qed
section \<open>Properties of the catalog merger\<close>

lemma toArticle_slug: "toArticle P c = Inr a \<Longrightarrow> article.slug a = slug (resultMeta c)"
  by (auto simp: toArticle_def Let_def split: sum.splits if_splits)

lemma mapArticles_slugs:
  "mapArticles P cs = Inr as \<Longrightarrow> map article.slug as = map (\<lambda>c. slug (resultMeta c)) cs"
proof (induction cs arbitrary: as)
  case Nil
  then show ?case by simp
next
  case (Cons c cs)
  then show ?case
    by (auto simp: toArticle_slug split: sum.splits)
qed

lemma updateArticleIndex_articles:
  assumes "updateArticleIndex P idx news = Inr r"
  obtains added where "mapArticles P news = Inr added"
    and "articles r =
           filter (\<lambda>a. \<not> list_ex (\<lambda>n. slug (resultMeta n) = article.slug a) news)
                  (articles idx) @ added"
  using assms by (auto simp: updateArticleIndex_def Let_def split: sum.splits)

lemma updateArticleIndex_distinct_slugs:
  assumes "updateArticleIndex P idx news = Inr r"
    and "distinct (map article.slug (articles idx))"
    and "distinct (map (\<lambda>c. slug (resultMeta c)) news)"
  shows "distinct (map article.slug (articles r))"
proof -
  from assms(1) obtain added where a: "mapArticles P news = Inr added"
    and r: "articles r =
           filter (\<lambda>a. \<not> list_ex (\<lambda>n. slug (resultMeta n) = article.slug a) news)
                  (articles idx) @ added"
    by (rule updateArticleIndex_articles)
  have s: "map article.slug added = map (\<lambda>c. slug (resultMeta c)) news"
    by (rule mapArticles_slugs [OF a])
  have d1: "distinct (map article.slug
              (filter (\<lambda>a. \<not> list_ex (\<lambda>n. slug (resultMeta n) = article.slug a) news)
                  (articles idx)))"
    using assms(2) by (rule distinct_map_filter)
  have d2: "distinct (map article.slug added)"
    using assms(3) s by simp
  have "set (map article.slug
              (filter (\<lambda>a. \<not> list_ex (\<lambda>n. slug (resultMeta n) = article.slug a) news)
                  (articles idx))) \<inter> set (map article.slug added) = {}"
    unfolding s by (auto simp: list_ex_iff)
  with d1 d2 show ?thesis
    unfolding r by simp
qed

lemma set_setOrder: "set (setOrder xs) = set xs"
  by (simp add: setOrder_def)

lemma distinct_setOrder: "distinct (setOrder xs)"
  by (simp add: setOrder_def)

lemma set_sortDefault: "set (sortDefault xs) = set xs"
proof -
  have "Some ` the ` {x \<in> set xs. x \<noteq> None} = {x \<in> set xs. x \<noteq> None}"
    by (auto simp: image_iff) force
  then show ?thesis
    by (auto simp: sortDefault_def image_image)
qed

lemma distinct_sortDefault: "distinct xs \<Longrightarrow> distinct (sortDefault xs)"
proof -
  assume d: "distinct xs"
  have "inj_on the (set (filter (\<lambda>x. x \<noteq> None) xs))"
    by (auto simp: inj_on_def)
  then have "distinct (map the (filter (\<lambda>x. x \<noteq> None) xs))"
    using d by (simp add: distinct_map)
  then have "distinct (map Some (sort_key toStr (map the (filter (\<lambda>x. x \<noteq> None) xs))))"
    by (simp add: distinct_map)
  moreover have "distinct (filter (\<lambda>x. x = None) xs)" using d by simp
  ultimately show ?thesis
    by (auto simp: sortDefault_def)
qed

lemma sortedDefault_sortDefault: "sortedDefault (sortDefault xs)"
proof -
  have "sorted (map toStr (sort_key toStr ys))" for ys :: "jsval list"
    by (rule sorted_sort_key)
  then have "sorted_wrt (\<lambda>v w. toStr v \<le> toStr w) (sort_key toStr ys)" for ys :: "jsval list"
    by (simp add: sorted_map)
  then have "sorted_wrt defaultLe (map Some (sort_key toStr ys))" for ys :: "jsval list"
    by (simp add: sorted_wrt_map defaultLe_def)
  moreover have "sorted_wrt defaultLe (filter (\<lambda>x. x = None) xs)"
    by (induction xs) (auto simp: defaultLe_def)
  ultimately show ?thesis
    by (auto simp: sortedDefault_def sortDefault_def sorted_wrt_append defaultLe_def)
qed

lemma updateArticleIndex_returns:
  assumes "\<And>c. c \<in> set news \<Longrightarrow> tags (resultMeta c) \<noteq> None"
  shows "\<exists>r. updateArticleIndex P idx news = Inr r"
proof -
  have "\<exists>as. mapArticles P cs = Inr as" if "\<And>c. c \<in> set cs \<Longrightarrow> tags (resultMeta c) \<noteq> None"
    for cs
    using that
  proof (induction cs)
    case Nil
    then show ?case by simp
  next
    case (Cons c cs)
    then obtain as where "mapArticles P cs = Inr as" by auto
    moreover have "\<exists>a. toArticle P c = Inr a"
      using Cons.prems [of c]
      by (auto simp: toArticle_def getTechnologyFromTags_def Let_def split: option.splits)
    ultimately show ?case by auto
  qed
  then obtain as where "mapArticles P news = Inr as" using assms by blast
  then show ?thesis by (simp add: updateArticleIndex_def Let_def)
qed

text \<open>
  C1: no two articles of the merged index share a slug, also when the batch itself holds two
  entries with one slug. The merge removes the existing entries whose slug occurs in the
  batch and then appends the whole batch: two accepted input files with the same slug both
  stay in the index.
\<close>

theorem updateArticleIndex_duplicate_in_batch:
  "fst (validateJsonStructure examplePlatform exampleCategories exampleRecord) = []
   \<and> fst (validateJsonStructure examplePlatform exampleCategories twinRecord) = []
   \<and> (case (convertJsonToMdx examplePlatform exampleRecord,
             convertJsonToMdx examplePlatform twinRecord) of
         (Inr a, Inr b) \<Rightarrow>
           map_sum id (\<lambda>i. map article.slug (articles i))
             (updateArticleIndex examplePlatform emptyIndex [a, b]) =
           Inr [Some ''how-to-parse-json-in-javascript'',
                Some ''how-to-parse-json-in-javascript'']
       | _ \<Rightarrow> False)"
  by code_simp

text \<open>
  C9: the index that \<open>updateArticleIndex\<close> returns has \<open>totalArticles\<close> equal to the number of
  its articles; \<open>categories\<close> holds exactly the category values of its articles, each once,
  in sorted order; \<open>technologies\<close> holds exactly the technology labels (the truthy values)
  of its articles, each once, in sorted order. Both lists are computed from the resulting
  articles alone: the aggregate fields of the old index have no influence.
\<close>

theorem updateArticleIndex_aggregates:
  assumes "updateArticleIndex P idx news = Inr r"
  shows "totalArticles r = length (articles r)
     \<and> categories r = sortDefault (setOrder (map article.category (articles r)))
     \<and> set (categories r) = article.category ` set (articles r)
     \<and> distinct (categories r) \<and> sortedDefault (categories r)
     \<and> technologies r =
         sortDefault (setOrder (filter truthyV (map article.technology (articles r))))
     \<and> set (technologies r) = {t \<in> article.technology ` set (articles r). truthyV t}
     \<and> distinct (technologies r) \<and> sortedDefault (technologies r)
     \<and> updateArticleIndex P (idx\<lparr>totalArticles := n, categories := cs, technologies := ts\<rparr>)
         news = Inr r"
proof -
  from assms obtain added where a: "mapArticles P news = Inr added"
    by (rule updateArticleIndex_articles)
  let ?u = "filter (\<lambda>a. \<not> list_ex (\<lambda>n. slug (resultMeta n) = article.slug a) news)
                   (articles idx) @ added"
  have r: "r = \<lparr>lastUpdated = now P, totalArticles = length ?u,
                categories = sortDefault (setOrder (map article.category ?u)),
                technologies =
                  sortDefault (setOrder (filter truthyV (map article.technology ?u))),
                articles = ?u\<rparr>"
    using assms by (simp add: updateArticleIndex_def Let_def a)
  have i: "updateArticleIndex P (idx\<lparr>totalArticles := n, categories := cs, technologies := ts\<rparr>)
             news = updateArticleIndex P idx news"
    by (simp add: updateArticleIndex_def)
  have c: "categories r = sortDefault (setOrder (map article.category (articles r)))"
    and t: "technologies r =
              sortDefault (setOrder (filter truthyV (map article.technology (articles r))))"
    and l: "totalArticles r = length (articles r)"
    by (simp_all add: r)
  have "set (categories r) = article.category ` set (articles r)"
    unfolding c by (simp add: set_sortDefault set_setOrder)
  moreover have "set (technologies r) = {t \<in> article.technology ` set (articles r). truthyV t}"
    unfolding t by (auto simp: set_sortDefault set_setOrder)
  moreover have "distinct (categories r)" "distinct (technologies r)"
    unfolding c t by (simp_all add: distinct_sortDefault distinct_setOrder)
  moreover have "sortedDefault (categories r)" "sortedDefault (technologies r)"
    unfolding c t by (simp_all add: sortedDefault_sortDefault)
  ultimately show ?thesis
    using c t l i assms by simp
qed

text \<open>The scenario of the specification: the new entry for an existing slug replaces the old
  one, and the old entry's category and technology leave the aggregates.\<close>

lemma merge_scenario:
  "(case convertJsonToMdx examplePlatform databaseRecord of
      Inr c \<Rightarrow>
        map_sum id
          (\<lambda>i. (map article.slug (articles i), map article.category (articles i),
                categories i, technologies i, totalArticles i))
          (updateArticleIndex examplePlatform oldIndex [c]) =
        Inr ([Some ''how-to-parse-json-in-javascript''], [Some (JStr ''databases'')],
             [Some (JStr ''databases'')], [Some (JStr ''MySQL'')], 1)
    | Inl e \<Rightarrow> False)"
  by code_simp

theorem updateArticleIndex_aggregates_witness:
  "\<exists>c r. convertJsonToMdx examplePlatform databaseRecord = Inr c
     \<and> updateArticleIndex examplePlatform oldIndex [c] = Inr r
     \<and> totalArticles r = length (articles r)
     \<and> set (categories r) = article.category ` set (articles r)
     \<and> sortedDefault (technologies r)
     \<and> categories r = [Some (JStr ''databases'')]"
proof -
  obtain c where c: "convertJsonToMdx examplePlatform databaseRecord = Inr c"
    using convert_succeeds [of databaseRecord "''# How to Parse JSON''"
        "the (metadata databaseRecord)"
        "''How to Parse JSON in JavaScript''" "''how-to-parse-json-in-javascript''"
        "''Complete guide to JSON parsing in JavaScript with examples''" examplePlatform]
    by (auto simp: databaseRecord_def exampleRecord_def exampleMetadata_def)
  have "tags (resultMeta c) \<noteq> None"
    using c
    by (auto simp: convertJsonToMdx_def generateMdxFrontmatter_def truncateTitle_def Let_def
        databaseRecord_def exampleRecord_def exampleMetadata_def)
  then obtain r where r: "updateArticleIndex examplePlatform oldIndex [c] = Inr r"
    using updateArticleIndex_returns [of "[c]" examplePlatform oldIndex] by auto
  have "categories r = [Some (JStr ''databases'')]"
    using merge_scenario by (simp add: c r)
  then show ?thesis
    using c r updateArticleIndex_aggregates [OF r] by blast
qed

end
